theory Spec2Isabelle
  imports Main
begin

section \<open>The dialogue tree runtime of \<^verbatim>\<open>Extensions/DialogueTree/dialoguetools.js\<close>\<close>

text \<open>
  The module keeps all of its state in the fields of the single object
  \<^verbatim>\<open>gdjs.dialogueTree\<close>; every function is called as a method of that object, so
  \<^verbatim>\<open>this\<close> and \<^verbatim>\<open>gdjs.dialogueTree\<close> are the same object. The model passes that
  object around as a record. A field that the module never initialises is \<^verbatim>\<open>undefined\<close>
  until \<^verbatim>\<open>startFrom\<close> (or \<^verbatim>\<open>stopRunningDialogue\<close>) assigns it: such fields have an option
  type where the source dereferences them, \<open>None\<close> standing for \<^verbatim>\<open>undefined\<close> or \<^verbatim>\<open>null\<close>.
  Boolean fields are only ever tested for truthiness, so \<^verbatim>\<open>undefined\<close> is \<open>False\<close>;
  \<^verbatim>\<open>dialogueDataType\<close> is only read while a session is running, where it has been
  assigned, so \<^verbatim>\<open>undefined\<close> is the empty string (both are falsy).
  Strings are lists of code units, so \<open>length\<close> is the \<^verbatim>\<open>.length\<close> of the source.
\<close>

subsection \<open>Values of the host language\<close>

datatype js_error = TypeError | SyntaxError

text \<open>The values a parsed JSON text can denote, with \<^verbatim>\<open>undefined\<close> for a missing property.\<close>

datatype jsval =
    JUndefined
  | JNull
  | JBool bool
  | JNum int
  | JStr string
  | JArr "jsval list"
  | JObj "(string \<times> jsval) list"

subsection \<open>Nodes produced by the interpreter\<close>

text \<open>
  \<^verbatim>\<open>bondage.TextResult\<close> carries \<^verbatim>\<open>text\<close> and \<^verbatim>\<open>data.title\<close>, \<^verbatim>\<open>data.body\<close>, \<^verbatim>\<open>data.tags\<close>;
  \<^verbatim>\<open>bondage.OptionsResult\<close> carries \<^verbatim>\<open>options\<close> (and is the only node with a \<^verbatim>\<open>select\<close>
  method); \<^verbatim>\<open>bondage.CommandResult\<close> carries \<^verbatim>\<open>text\<close>.
\<close>

datatype node =
    TextResult string string string "string list"
  | OptionsResult "string list"
  | CommandResult string

fun has_select :: "node \<Rightarrow> bool" where
  "has_select (OptionsResult os) = True"
| "has_select n = False"

fun is_command :: "node option \<Rightarrow> bool" where
  "is_command (Some (CommandResult t)) = True"
| "is_command d = False"

subsection \<open>The state of the module\<close>

record call =
  cmd :: string
  params :: "string list"
  time :: nat

text \<open>
  The number \<^verbatim>\<open>parseInt(x, 10)\<close> for an argument \<open>x\<close> that is a string or \<^verbatim>\<open>undefined\<close>.
  The builtin is not interpreted: its result is a floating-point number (or \<^verbatim>\<open>NaN\<close>), and
  nothing in the module reads it; the value is handed to the host's \<^verbatim>\<open>setTimeout\<close>.
\<close>

datatype duration = ParseInt10 "string option"

text \<open>
  A pending \<^verbatim>\<open>setTimeout\<close> callback of \<^verbatim>\<open>isCommandCalled\<close>. Its closure holds the array that
  was the command queue when it was scheduled and the index of the entry; \<open>target\<close> names
  that array (see \<open>callsId\<close> below). \<open>delay\<close> is \<^verbatim>\<open>parseInt(call.params[1], 10)\<close>.
\<close>

record timer =
  target :: nat
  idx :: nat
  delay :: duration

text \<open>
  \<open>yarnNodes\<close> and \<open>dialogue\<close> stand for the external interpreter: the nodes that
  \<^verbatim>\<open>runner.run(title)\<close> yields for each branch title, and the nodes the running generator
  has not yielded yet. \<open>callsId\<close> is the identity of the array in \<^verbatim>\<open>commandCalls\<close>: it
  changes whenever the source assigns a fresh array, so that a timer scheduled on an
  earlier array no longer reaches the queue.
\<close>

record state =
  yarnNodes :: "(string \<times> node list) list option"
  visited :: jsval
  variables_data :: jsval
  dialogue :: "node list"
  dialogueIsRunning :: bool
  dialogueData :: "node option"
  dialogueDataType :: string
  dialogueText :: "string option"
  clipTextEnd :: nat
  commandCalls :: "call list option"
  callsId :: nat
  commandParameters :: "string list option"
  pauseScrolling :: bool
  timers :: "timer list"
  options :: "string list option"
  optionsCount :: nat
  selectedOption :: int
  selectedOptionUpdated :: bool
  dialogueBranchTitle :: string
  dialogueBranchBody :: string
  dialogueBranchTags :: "string list"
  tagParameters :: "string list"

text \<open>
  The result of a call: it returns a value, or it throws; either way the state is the one
  the call leaves behind.
\<close>

datatype 'a outcome = Return state 'a | Throw js_error state

fun outcome_state :: "'a outcome \<Rightarrow> state" where
  "outcome_state (Return s v) = s"
| "outcome_state (Throw e s) = s"

fun returned :: "'a outcome \<Rightarrow> 'a option" where
  "returned (Return s v) = Some v"
| "returned (Throw e s) = None"

text \<open>The module right after it is loaded, with the script \<open>ys\<close> loaded into the runner.\<close>

definition loaded :: "(string \<times> node list) list \<Rightarrow> state" where
  "loaded ys =
     \<lparr> yarnNodes = Some ys, visited = JObj [], variables_data = JObj [], dialogue = [],
       dialogueIsRunning = False, dialogueData = None, dialogueDataType = [],
       dialogueText = None, clipTextEnd = 0, commandCalls = None, callsId = 0,
       commandParameters = None, pauseScrolling = False, timers = [], options = None,
       optionsCount = 0, selectedOption = - 1, selectedOptionUpdated = False,
       dialogueBranchTitle = [], dialogueBranchBody = [], dialogueBranchTags = [],
       tagParameters = [] \<rparr>"

subsection \<open>Helpers of the host language\<close>

text \<open>\<^verbatim>\<open>String.prototype.split\<close> with a one-character separator.\<close>

fun js_split :: "char \<Rightarrow> string \<Rightarrow> string list" where
  "js_split d [] = [[]]"
| "js_split d (c # cs) =
     (if c = d then [] # js_split d cs
      else (case js_split d cs of
              w # ws \<Rightarrow> (c # w) # ws
            | [] \<Rightarrow> [[c]]))"

text \<open>\<^verbatim>\<open>Array.prototype.splice(index, 1)\<close>: nothing happens when the index is out of range.\<close>

definition splice1 :: "nat \<Rightarrow> 'a list \<Rightarrow> 'a list" where
  "splice1 i xs = take i xs @ drop (Suc i) xs"

text \<open>A string in a condition: \<^verbatim>\<open>undefined\<close> and the empty string are falsy.\<close>

fun truthy :: "string option \<Rightarrow> bool" where
  "truthy None = False"
| "truthy (Some t) = (t \<noteq> [])"

text \<open>A string operand of \<^verbatim>\<open>+=\<close>: \<^verbatim>\<open>undefined\<close> is converted to its name.\<close>

fun js_string :: "string option \<Rightarrow> string" where
  "js_string None = ''undefined''"
| "js_string (Some t) = t"

text \<open>Reading an array element: \<^verbatim>\<open>undefined\<close> out of range.\<close>

definition element :: "'a list \<Rightarrow> nat \<Rightarrow> 'a option" where
  "element xs i = (if i < length xs then Some (xs ! i) else None)"

text \<open>\<^verbatim>\<open>generator.next().value\<close>: the next node, \<^verbatim>\<open>undefined\<close> when the sequence is over.\<close>

definition pull :: "state \<Rightarrow> state" where
  "pull s =
     (case dialogue s of
        [] \<Rightarrow> s\<lparr>dialogueData := None\<rparr>
      | n # ns \<Rightarrow> s\<lparr>dialogueData := Some n, dialogue := ns\<rparr>)"

subsection \<open>Session control and scrolling\<close>

definition stopRunningDialogue :: "state \<Rightarrow> state" where
  "stopRunningDialogue s =
     s\<lparr>dialogueIsRunning := False, dialogueData := None,
       dialogueText := Some [], clipTextEnd := 0\<rparr>"

definition isRunning :: "state \<Rightarrow> state \<times> bool" where
  "isRunning s =
     (let s' = (if dialogueIsRunning s \<and> dialogueData s = None \<and> truthy (dialogueText s)
                   \<and> length (js_string (dialogueText s)) \<le> clipTextEnd s
                then s\<lparr>dialogueIsRunning := False\<rparr> else s)
      in (s', dialogueIsRunning s'))"

definition scrollClippedText :: "state \<Rightarrow> state" where
  "scrollClippedText s =
     (if pauseScrolling s \<or> \<not> dialogueIsRunning s then s
      else if truthy (dialogueText s) then s\<lparr>clipTextEnd := clipTextEnd s + 1\<rparr>
      else s)"

definition completeClippedTextScrolling :: "state \<Rightarrow> state" where
  "completeClippedTextScrolling s =
     (if pauseScrolling s \<or> \<not> dialogueIsRunning s \<or> \<not> truthy (dialogueText s) then s
      else s\<lparr>clipTextEnd := length (js_string (dialogueText s))\<rparr>)"

definition hasClippedScrollingCompleted :: "state \<Rightarrow> bool outcome" where
  "hasClippedScrollingCompleted s =
     (case dialogueData s of
        None \<Rightarrow> Return s False
      | Some n \<Rightarrow>
          (case dialogueText s of
             None \<Rightarrow> Throw TypeError s
           | Some t \<Rightarrow> Return s (t \<noteq> [] \<and> length t \<le> clipTextEnd s)))"

text \<open>\<^verbatim>\<open>substring(0, n)\<close> is \<open>take n\<close>: it stops at the end of the string.\<close>

definition getClippedLineText :: "state \<Rightarrow> string outcome" where
  "getClippedLineText s =
     (case dialogueText s of
        None \<Rightarrow> Throw TypeError s
      | Some t \<Rightarrow> Return s (if t \<noteq> [] then take (clipTextEnd s) t else []))"

definition getLineText :: "state \<Rightarrow> string outcome" where
  "getLineText s =
     (let s' = completeClippedTextScrolling s
      in case dialogueText s' of
           None \<Rightarrow> Throw TypeError s'
         | Some t \<Rightarrow> Return s' t)"

subsection \<open>The line-advance algorithm\<close>

text \<open>
  \<^verbatim>\<open>goToNextDialogueLine\<close> calls itself: after queueing a command, and once more at its end
  when the node it is left with is a command. The definitions below are the parts of one call before
  those recursive calls: the final test for a command node follows every branch.
\<close>

definition advance_text :: "state \<Rightarrow> string \<Rightarrow> string \<Rightarrow> string \<Rightarrow> string list \<Rightarrow> state" where
  "advance_text s txt ttl bdy tgs =
     (let s1 = (if dialogueDataType s = ''options'' \<or> dialogueDataType s = ''text''
                   \<or> dialogueDataType s = []
                then s\<lparr>clipTextEnd := 0, dialogueText := Some txt,
                       commandCalls := Some [], callsId := Suc (callsId s)\<rparr>
                else s\<lparr>dialogueText := Some (js_string (dialogueText s) @ txt)\<rparr>)
      in pull (s1\<lparr>dialogueDataType := ''text'', dialogueBranchTags := tgs,
                   dialogueBranchTitle := ttl, dialogueBranchBody := bdy\<rparr>))"

definition advance_options :: "state \<Rightarrow> string list \<Rightarrow> state" where
  "advance_options s os =
     s\<lparr>dialogueDataType := ''options'', optionsCount := length os, options := Some os,
       selectedOptionUpdated := True\<rparr>"

definition queue_command :: "state \<Rightarrow> string \<Rightarrow> call list \<Rightarrow> string \<Rightarrow> state" where
  "queue_command s ctext calls t =
     (let command = js_split CHR '' '' ctext;
          offsetTime = (if calls \<noteq> [] \<and> cmd (last calls) = ''wait'' then 1 else 0)
      in pull (s\<lparr>commandCalls :=
                   Some (calls @ [\<lparr>cmd = hd command, params = command,
                                   time = length t + offsetTime\<rparr>])\<rparr>))"

function goToNextDialogueLine :: "state \<Rightarrow> unit outcome" where
  "goToNextDialogueLine s0 =
     (if pauseScrolling s0 \<or> \<not> dialogueIsRunning s0 then Return s0 ()
      else
        let s = s0\<lparr>optionsCount := 0, selectedOption := - 1, selectedOptionUpdated := False\<rparr>
        in case dialogueData s of
             Some (TextResult txt ttl bdy tgs) \<Rightarrow>
               (let s2 = advance_text s txt ttl bdy tgs
                in if is_command (dialogueData s2)
                   then goToNextDialogueLine (s2\<lparr>dialogueDataType := ''command''\<rparr>)
                   else Return s2 ())
           | Some (OptionsResult os) \<Rightarrow>
               (let s2 = advance_options s os
                in if is_command (dialogueData s2)
                   then goToNextDialogueLine (s2\<lparr>dialogueDataType := ''command''\<rparr>)
                   else Return s2 ())
           | Some (CommandResult ctext) \<Rightarrow>
               (let s1 = s\<lparr>dialogueDataType := ''command''\<rparr>
                in case commandCalls s1 of
                     None \<Rightarrow> Throw TypeError s1
                   | Some calls \<Rightarrow>
                       (case dialogueText s1 of
                          None \<Rightarrow> Throw TypeError s1
                        | Some t \<Rightarrow>
                            (case goToNextDialogueLine (queue_command s1 ctext calls t) of
                               Throw e x \<Rightarrow> Throw e x
                             | Return s2 u \<Rightarrow>
                                 if is_command (dialogueData s2)
                                 then goToNextDialogueLine (s2\<lparr>dialogueDataType := ''command''\<rparr>)
                                 else Return s2 ())))
           | None \<Rightarrow>
               (let s2 = s\<lparr>dialogueDataType := ''unknown''\<rparr>
                in if is_command (dialogueData s2)
                   then goToNextDialogueLine (s2\<lparr>dialogueDataType := ''command''\<rparr>)
                   else Return s2 ()))"
  by pat_completeness auto

text \<open>
  The recursion ends because every recursive call has pulled a node from the generator,
  or has turned the current command node into another kind of node.
\<close>

definition budget :: "state \<Rightarrow> nat" where
  "budget s = 2 * length (dialogue s) + (if is_command (dialogueData s) then 1 else 0)"

subsection \<open>Starting a session\<close>

definition hasDialogueBranch :: "state \<Rightarrow> string \<Rightarrow> bool" where
  "hasDialogueBranch s branchName =
     (case yarnNodes s of
        None \<Rightarrow> False
      | Some ys \<Rightarrow> list_ex (\<lambda>node. node = branchName) (map fst ys))"

text \<open>\<^verbatim>\<open>runner.run(title)\<close>; \<^verbatim>\<open>startFrom\<close> calls it for known titles only.\<close>

definition runner_run :: "state \<Rightarrow> string \<Rightarrow> node list" where
  "runner_run s title =
     (case yarnNodes s of
        None \<Rightarrow> []
      | Some ys \<Rightarrow> (case map_of ys title of None \<Rightarrow> [] | Some ns \<Rightarrow> ns))"

definition startFrom :: "state \<Rightarrow> string \<Rightarrow> unit outcome" where
  "startFrom s startDialogueNode =
     (if \<not> hasDialogueBranch s startDialogueNode then Return s ()
      else
        let s1 = s\<lparr>optionsCount := 0, options := Some [], dialogueBranchTitle := [],
                   dialogueBranchBody := [], dialogueBranchTags := [], tagParameters := [],
                   dialogue := runner_run s startDialogueNode, dialogueData := None,
                   dialogueDataType := [], dialogueText := Some [], clipTextEnd := 0,
                   commandCalls := Some [], callsId := Suc (callsId s),
                   commandParameters := Some [], pauseScrolling := False\<rparr>
        in goToNextDialogueLine ((pull s1)\<lparr>dialogueIsRunning := True\<rparr>))"

subsection \<open>The command queue\<close>

text \<open>
  The callback of \<^verbatim>\<open>commandCalls.some\<close> in \<^verbatim>\<open>isCommandCalled\<close>, run over the entries from
  \<open>index\<close> on. \<open>clip\<close> and \<open>dtext\<close> are the local copies of \<^verbatim>\<open>clipTextEnd\<close> and
  \<^verbatim>\<open>dialogueText\<close> taken before the scan. The scan mutates the array only together with
  \<^verbatim>\<open>return true\<close>, which ends it.
\<close>

fun scan_calls :: "string \<Rightarrow> nat \<Rightarrow> string option \<Rightarrow> nat \<Rightarrow> call list \<Rightarrow> state \<Rightarrow> bool outcome" where
  "scan_calls command clip dtext index [] s = Return s False"
| "scan_calls command clip dtext index (c # rest) s =
     (if clip < time c then scan_calls command clip dtext (Suc index) rest s
      else if cmd c = ''wait'' \<and> dtext = None then Throw TypeError s
      else
        let s1 = (if cmd c = ''wait'' \<and> clip \<noteq> length (js_string dtext)
                  then s\<lparr>pauseScrolling := True,
                         timers := timers s @ [\<lparr>target = callsId s, idx = index,
                                                delay = ParseInt10 (element (params c) 1)\<rparr>]\<rparr>
                  else s)
        in if cmd c = command
           then Return (s1\<lparr>commandParameters := Some (params c),
                            commandCalls := map_option (splice1 index) (commandCalls s1)\<rparr>) True
           else scan_calls command clip dtext (Suc index) rest s1)"

definition isCommandCalled :: "state \<Rightarrow> string \<Rightarrow> bool outcome" where
  "isCommandCalled s command =
     (case commandCalls s of
        None \<Rightarrow> Return s False
      | Some calls \<Rightarrow>
          if pauseScrolling s then Return s False
          else scan_calls command (clipTextEnd s) (dialogueText s) 0 calls s)"

text \<open>
  The host runs the \<open>n\<close>-th pending timer callback: it clears the pause flag and removes
  the entry at the recorded index from the array it was scheduled on.
\<close>

definition fire_timer :: "nat \<Rightarrow> state \<Rightarrow> state" where
  "fire_timer n s =
     (if n < length (timers s)
      then let t = timers s ! n;
               s1 = s\<lparr>pauseScrolling := False, timers := splice1 n (timers s)\<rparr>
           in if target t = callsId s
              then s1\<lparr>commandCalls := map_option (splice1 (idx t)) (commandCalls s1)\<rparr>
              else s1
      else s)"

definition commandParametersCount :: "state \<Rightarrow> nat" where
  "commandParametersCount s =
     (case commandParameters s of
        None \<Rightarrow> 0
      | Some ps \<Rightarrow> if 1 < length ps then length ps - 1 else 0)"

subsection \<open>Options\<close>

definition normalizedOptionIndex :: "state \<Rightarrow> int \<Rightarrow> int outcome" where
  "normalizedOptionIndex s optionIndex =
     (case options s of
        None \<Rightarrow> Throw TypeError s
      | Some os \<Rightarrow>
          let i = (if int (length os) \<le> optionIndex then int (length os) - 1 else optionIndex)
          in Return s (if i < 0 then 0 else i))"

definition cycledOptionIndex :: "state \<Rightarrow> int \<Rightarrow> int outcome" where
  "cycledOptionIndex s optionIndex =
     (case options s of
        None \<Rightarrow> Throw TypeError s
      | Some os \<Rightarrow>
          let i = (if int (length os) \<le> optionIndex then 0 else optionIndex)
          in Return s (if i < 0 then int (length os) - 1 else i))"

definition getLineOptionsCount :: "state \<Rightarrow> nat outcome" where
  "getLineOptionsCount s =
     (case options s of
        None \<Rightarrow> Throw TypeError s
      | Some os \<Rightarrow> Return s (if os \<noteq> [] then optionsCount s else 0))"

definition selectNextOption :: "state \<Rightarrow> unit outcome" where
  "selectNextOption s =
     (case dialogueData s of
        None \<Rightarrow> Throw TypeError s
      | Some n \<Rightarrow>
          if has_select n
          then (case cycledOptionIndex (s\<lparr>selectedOption := selectedOption s + 1\<rparr>)
                       (selectedOption s + 1) of
                  Throw e x \<Rightarrow> Throw e x
                | Return s1 i \<Rightarrow>
                    Return (s1\<lparr>selectedOption := i, selectedOptionUpdated := True\<rparr>) ())
          else Return s ())"

definition selectPreviousOption :: "state \<Rightarrow> unit outcome" where
  "selectPreviousOption s =
     (case dialogueData s of
        None \<Rightarrow> Throw TypeError s
      | Some n \<Rightarrow>
          if has_select n
          then (case cycledOptionIndex (s\<lparr>selectedOption := selectedOption s - 1\<rparr>)
                       (selectedOption s - 1) of
                  Throw e x \<Rightarrow> Throw e x
                | Return s1 i \<Rightarrow>
                    Return (s1\<lparr>selectedOption := i, selectedOptionUpdated := True\<rparr>) ())
          else Return s ())"

text \<open>\<^verbatim>\<open>selectOption(optionIndex)\<close> does not read its argument.\<close>

definition selectOption :: "state \<Rightarrow> int \<Rightarrow> unit outcome" where
  "selectOption s optionIndex =
     (case dialogueData s of
        None \<Rightarrow> Throw TypeError s
      | Some n \<Rightarrow>
          if has_select n
          then (case normalizedOptionIndex s (selectedOption s) of
                  Throw e x \<Rightarrow> Throw e x
                | Return s1 i \<Rightarrow>
                    Return (s1\<lparr>selectedOption := i, selectedOptionUpdated := True\<rparr>) ())
          else Return s ())"

definition getSelectedOption :: "state \<Rightarrow> int outcome" where
  "getSelectedOption s =
     (case dialogueData s of
        None \<Rightarrow> Throw TypeError s
      | Some n \<Rightarrow> if has_select n then Return s (selectedOption s) else Return s 0)"

definition hasSelectedOptionChanged :: "state \<Rightarrow> state \<times> bool" where
  "hasSelectedOptionChanged s =
     (if selectedOptionUpdated s
      then let s1 = s\<lparr>selectedOptionUpdated := False\<rparr>
           in (if selectedOption s1 = - 1 then s1\<lparr>selectedOption := 0\<rparr> else s1, True)
      else (s, False))"

subsection \<open>The type of the current line\<close>

definition isDialogueLineType :: "state \<Rightarrow> string \<Rightarrow> bool" where
  "isDialogueLineType s type =
     (if (case commandCalls s of
            None \<Rightarrow> False
          | Some calls \<Rightarrow> list_ex (\<lambda>c. time c < clipTextEnd s \<and> cmd c = ''wait'') calls)
      then \<not> pauseScrolling s
      else if dialogueIsRunning s then dialogueDataType s = type else False)"

subsection \<open>Persistence\<close>

text \<open>
  Modelled from the spec: the variable that \<^verbatim>\<open>saveState\<close> writes and \<^verbatim>\<open>loadState\<close> reads
  (\<^verbatim>\<open>gdjs.Variable\<close>) is not among the sources. The spec calls it the external variable
  sink, "a structured, JSON-compatible read/write target supplied by the host", whose
  content \<^verbatim>\<open>load\<close> parses: the content is a JSON-compatible value, or something that does
  not parse.
\<close>

datatype sink = Content jsval | Unparsable

text \<open>
  Modelled from the spec: \<^verbatim>\<open>gdjs.evtTools.network._objectToVariable(obj, variable)\<close> is not
  among the sources; it writes the object into the sink.
\<close>

definition objectToVariable :: "jsval \<Rightarrow> sink \<Rightarrow> sink" where
  "objectToVariable obj variable = Content obj"

text \<open>
  Modelled from the spec: \<^verbatim>\<open>gdjs.evtTools.network.variableStructureToJSON(variable)\<close> is not
  among the sources; \<^verbatim>\<open>JSON.parse\<close> of its result reads the content of the sink back, and
  throws a \<^verbatim>\<open>SyntaxError\<close> when the content does not parse.
\<close>

definition parseVariable :: "sink \<Rightarrow> js_error + jsval" where
  "parseVariable variable =
     (case variable of Content v \<Rightarrow> Inr v | Unparsable \<Rightarrow> Inl SyntaxError)"

text \<open>
  Reading a property: a \<^verbatim>\<open>TypeError\<close> (\<open>None\<close>) on \<^verbatim>\<open>null\<close> and \<^verbatim>\<open>undefined\<close>, \<^verbatim>\<open>undefined\<close>
  when the value has no property of that name. An object lists each of its keys once.
\<close>

fun property :: "jsval \<Rightarrow> string \<Rightarrow> jsval option" where
  "property JUndefined k = None"
| "property JNull k = None"
| "property (JObj kvs) k = Some (case map_of kvs k of None \<Rightarrow> JUndefined | Some v \<Rightarrow> v)"
| "property v k = Some JUndefined"

definition saveState :: "state \<Rightarrow> sink \<Rightarrow> sink" where
  "saveState s outputVariable =
     objectToVariable (JObj [(''variables'', variables_data s), (''visited'', visited s)])
       outputVariable"

text \<open>
  \<^verbatim>\<open>loadState\<close> assigns \<^verbatim>\<open>runner.visited\<close>, then \<^verbatim>\<open>runner.variables.data\<close>, inside a \<^verbatim>\<open>try\<close>
  whose handler passes the exception to \<^verbatim>\<open>console.error\<close>: the second component is what
  was reported.
\<close>

definition loadState :: "state \<Rightarrow> sink \<Rightarrow> state \<times> js_error list" where
  "loadState s inputVariable =
     (case parseVariable inputVariable of
        Inl e \<Rightarrow> (s, [e])
      | Inr loadedState \<Rightarrow>
          (case property loadedState ''visited'' of
             None \<Rightarrow> (s, [TypeError])
           | Some vis \<Rightarrow>
               (case property loadedState ''variables'' of
                  None \<Rightarrow> (s\<lparr>visited := vis\<rparr>, [TypeError])
                | Some vars \<Rightarrow> (s\<lparr>visited := vis, variables_data := vars\<rparr>, []))))"

subsection \<open>A game loop polling one command\<close>

text \<open>
  What the caller does between two frames: scroll one step, ask \<^verbatim>\<open>isCommandCalled(name)\<close>,
  or let the host run a pending timer. \<open>play\<close> records, for every \<^verbatim>\<open>isCommandCalled\<close>, the
  value of \<^verbatim>\<open>clipTextEnd\<close> at the call and what the call returned (\<open>None\<close> if it threw).
\<close>

datatype event = Tick | Poll | Fire nat

fun play :: "string \<Rightarrow> event list \<Rightarrow> state \<Rightarrow> (nat \<times> bool option) list" where
  "play name [] s = []"
| "play name (Tick # es) s = play name es (scrollClippedText s)"
| "play name (Fire n # es) s = play name es (fire_timer n s)"
| "play name (Poll # es) s =
     (clipTextEnd s, returned (isCommandCalled s name))
       # play name es (outcome_state (isCommandCalled s name))"

text \<open>
  Firing exactly once at offset \<open>k\<close>: of the calls made at the given values of
  \<^verbatim>\<open>clipTextEnd\<close>, the first one at or beyond \<open>k\<close> answers true and every other one false.
\<close>

fun fires_once :: "nat \<Rightarrow> nat list \<Rightarrow> bool list" where
  "fires_once k [] = []"
| "fires_once k (e # es) =
     (if k \<le> e then True # replicate (length es) False else False # fires_once k es)"

text \<open>
  The situation of a line \<open>line\<close> with exactly one command call \<open>c\<close> queued at an
  offset within the line: a session is running, scrolling is not paused, and no timer
  left over from an earlier wait still refers to this queue.
\<close>

definition one_queued :: "string \<Rightarrow> call \<Rightarrow> state \<Rightarrow> bool" where
  "one_queued line c s \<longleftrightarrow>
     dialogueText s = Some line \<and> commandCalls s = Some [c] \<and> time c \<le> length line
     \<and> dialogueIsRunning s \<and> \<not> pauseScrolling s
     \<and> (\<forall>t \<in> set (timers s). target t \<noteq> callsId s)"

text \<open>Calling an operation \<open>n\<close> times in a row, stopping at the first exception.\<close>

fun repeatedly :: "nat \<Rightarrow> (state \<Rightarrow> unit outcome) \<Rightarrow> state \<Rightarrow> unit outcome" where
  "repeatedly 0 f s = Return s ()"
| "repeatedly (Suc n) f s =
     (case f s of
        Throw e x \<Rightarrow> Throw e x
      | Return s1 u \<Rightarrow> repeatedly n f s1)"

subsection \<open>Example sessions\<close>

text \<open>
  Small scripts, and the state each one is in after \<^verbatim>\<open>startFrom("Start")\<close> on a freshly
  loaded module. The third script is the scenario "Hi <<wait 500>> there" of the
  specification.
\<close>

definition hi_script :: "(string \<times> node list) list" where
  "hi_script = [(''Start'', [TextResult ''Hi'' ''Start'' ''Hi'' []])]"

definition blank_script :: "(string \<times> node list) list" where
  "blank_script = [(''Start'', [TextResult [] ''Start'' [] []])]"

definition wait_script :: "(string \<times> node list) list" where
  "wait_script =
     [(''Start'', [TextResult ''Hi '' ''Start'' ''Hi <<wait 500>> there'' [],
                   CommandResult ''wait 500'',
                   TextResult ''there'' ''Start'' ''Hi <<wait 500>> there'' []])]"

definition options_script :: "(string \<times> node list) list" where
  "options_script = [(''Start'', [OptionsResult [''Yes'', ''No'']])]"

definition pair_script :: "(string \<times> node list) list" where
  "pair_script = [(''Start'', [TextResult ''Hi'' ''Start'' ''Hi'' [],
                               TextResult ''Bye'' ''Start'' ''Hi'' []])]"

definition twice_script :: "(string \<times> node list) list" where
  "twice_script = [(''Start'', [TextResult ''Hi'' ''Start'' ''Hi'' [],
                                CommandResult ''slam door'', CommandResult ''slam gate''])]"

definition shake_script :: "(string \<times> node list) list" where
  "shake_script =
     [(''Start'', [TextResult ''Hi'' ''Start'' ''Hi<<wait 100>><<shake hard>>!'' [],
                   CommandResult ''wait 100'',
                   CommandResult ''shake hard'',
                   TextResult ''!'' ''Start'' ''Hi<<wait 100>><<shake hard>>!'' []])]"

definition hi_session :: state where
  "hi_session = outcome_state (startFrom (loaded hi_script) ''Start'')"

definition blank_session :: state where
  "blank_session = outcome_state (startFrom (loaded blank_script) ''Start'')"

definition wait_session :: state where
  "wait_session = outcome_state (startFrom (loaded wait_script) ''Start'')"

definition options_session :: state where
  "options_session = outcome_state (startFrom (loaded options_script) ''Start'')"

definition pair_session :: state where
  "pair_session = outcome_state (startFrom (loaded pair_script) ''Start'')"

definition twice_session :: state where
  "twice_session = outcome_state (startFrom (loaded twice_script) ''Start'')"

definition shake_session :: state where
  "shake_session = outcome_state (startFrom (loaded shake_script) ''Start'')"

text \<open>
  The state of that session after two ticks and a call \<^verbatim>\<open>isCommandCalled("wait")\<close>.
\<close>

definition shake_paused :: state where
  "shake_paused =
     outcome_state (isCommandCalled ((scrollClippedText ^^ 2) shake_session) ''wait'')"

section \<open>Termination of the line-advance algorithm\<close>

lemma budget_pull_le: "budget (pull s) \<le> 2 * length (dialogue s)"
  by (cases "dialogue s") (auto simp: budget_def pull_def)

lemma budget_pull_command:
  "is_command (dialogueData (pull s)) \<Longrightarrow> budget (pull s) + 1 \<le> 2 * length (dialogue s)"
  by (cases "dialogue s") (auto simp: budget_def pull_def)

lemma advance_text_budget:
  "budget (advance_text s txt ttl bdy tgs) \<le> 2 * length (dialogue s)"
  unfolding advance_text_def Let_def
  by (rule order_trans[OF budget_pull_le]) (simp split: if_splits)

lemma advance_text_budget_command:
  "is_command (dialogueData (advance_text s txt ttl bdy tgs)) \<Longrightarrow>
   budget (advance_text s txt ttl bdy tgs) + 1 \<le> 2 * length (dialogue s)"
  unfolding advance_text_def Let_def
  by (rule order_trans[OF budget_pull_command]) (simp_all split: if_splits)

lemma queue_command_budget:
  "budget (queue_command s ctext calls t) \<le> 2 * length (dialogue s)"
  unfolding queue_command_def Let_def
  by (rule order_trans[OF budget_pull_le]) simp

lemma budget_type [simp]: "budget (s\<lparr>dialogueDataType := x\<rparr>) = budget s"
  by (simp add: budget_def)

lemma goToNext_budget:
  "goToNextDialogueLine_dom s \<Longrightarrow> budget (outcome_state (goToNextDialogueLine s)) \<le> budget s"
proof (induction rule: goToNextDialogueLine.pinduct)
  case (1 s0)
  let ?s = "s0\<lparr>optionsCount := 0, selectedOption := - 1, selectedOptionUpdated := False\<rparr>"
  have len: "dialogue ?s = dialogue s0" and dat: "dialogueData ?s = dialogueData s0" by simp_all
  have bs: "budget ?s = budget s0" by (simp add: budget_def)
  show ?case
  proof (cases "pauseScrolling s0 \<or> \<not> dialogueIsRunning s0")
    case True
    then show ?thesis using "1.hyps" by (simp add: goToNextDialogueLine.psimps)
  next
    case run: False
    show ?thesis
    proof (cases "dialogueData s0")
      case None
      then show ?thesis using "1.hyps" run
        by (simp add: goToNextDialogueLine.psimps Let_def budget_def)
    next
      case (Some n)
      then have d1: "dialogueData ?s = Some n" by simp
      show ?thesis
      proof (cases n)
        case (TextResult tx tt bd tg)
        let ?s2 = "advance_text ?s tx tt bd tg"
        show ?thesis
        proof (cases "is_command (dialogueData ?s2)")
          case True
          have "budget (outcome_state (goToNextDialogueLine (?s2\<lparr>dialogueDataType := ''command''\<rparr>)))
                 \<le> budget (?s2\<lparr>dialogueDataType := ''command''\<rparr>)"
            using "1.IH"(2)[OF run refl d1 TextResult refl True] by simp
          also have "\<dots> \<le> 2 * length (dialogue s0)"
            using advance_text_budget[of ?s tx tt bd tg] by simp
          also have "\<dots> \<le> budget s0" by (simp add: budget_def)
          finally show ?thesis using "1.hyps" run Some TextResult True
            by (simp add: goToNextDialogueLine.psimps Let_def)
        next
          case False
          have "budget ?s2 \<le> budget s0"
            using advance_text_budget[of ?s tx tt bd tg] by (simp add: budget_def)
          then show ?thesis using "1.hyps" run Some TextResult False
            by (simp add: goToNextDialogueLine.psimps Let_def)
        qed
      next
        case (OptionsResult os)
        then show ?thesis using "1.hyps" run Some
          by (simp add: goToNextDialogueLine.psimps Let_def advance_options_def budget_def)
      next
        case (CommandResult ctext)
        have b0: "budget s0 = 2 * length (dialogue s0) + 1"
          using Some CommandResult by (simp add: budget_def)
        let ?s1 = "?s\<lparr>dialogueDataType := ''command''\<rparr>"
        show ?thesis
        proof (cases "commandCalls s0")
          case None
          then show ?thesis using "1.hyps" run Some CommandResult
            by (simp add: goToNextDialogueLine.psimps Let_def budget_def)
        next
          case calls: (Some calls)
          show ?thesis
          proof (cases "dialogueText s0")
            case None
            then show ?thesis using "1.hyps" run Some CommandResult calls
              by (simp add: goToNextDialogueLine.psimps Let_def budget_def)
          next
            case dtext: (Some t)
            let ?q = "queue_command ?s1 ctext calls t"
            have c1: "commandCalls ?s1 = Some calls" and t1: "dialogueText ?s1 = Some t"
              using calls dtext by simp_all
            have ih1: "budget (outcome_state (goToNextDialogueLine ?q)) \<le> budget ?q"
              using "1.IH"(4)[OF run refl d1 CommandResult refl c1 t1] by simp
            have q: "budget ?q \<le> 2 * length (dialogue s0)"
              using queue_command_budget[of ?s1 ctext calls t] by simp
            show ?thesis
            proof (cases "goToNextDialogueLine ?q")
              case (Throw e x)
              then show ?thesis using "1.hyps" run Some CommandResult calls dtext ih1 q b0
                by (simp add: goToNextDialogueLine.psimps Let_def)
            next
              case (Return s2 u)
              show ?thesis
              proof (cases "is_command (dialogueData s2)")
                case False
                then show ?thesis using "1.hyps" run Some CommandResult calls dtext ih1 q b0 Return
                  by (simp add: goToNextDialogueLine.psimps Let_def)
              next
                case True
                have "budget (outcome_state (goToNextDialogueLine (s2\<lparr>dialogueDataType := ''command''\<rparr>)))
                       \<le> budget (s2\<lparr>dialogueDataType := ''command''\<rparr>)"
                  using "1.IH"(5)[OF run refl d1 CommandResult refl c1 t1 Return True] by simp
                then show ?thesis using "1.hyps" run Some CommandResult calls dtext ih1 q b0 Return True
                  by (simp add: goToNextDialogueLine.psimps Let_def)
              qed
            qed
          qed
        qed
      qed
    qed
  qed
qed

termination goToNextDialogueLine
proof (relation "measure budget")
  show "wf (measure budget)" by simp
next
  fix s0 s :: state and x2 x1 x2a x3 x4 s2
  assume "\<not> (pauseScrolling s0 \<or> \<not> dialogueIsRunning s0)"
    "s = s0\<lparr>optionsCount := 0, selectedOption := - 1, selectedOptionUpdated := False\<rparr>"
    "dialogueData s = Some x2" "x2 = TextResult x1 x2a x3 x4"
    "s2 = advance_text s x1 x2a x3 x4" "is_command (dialogueData s2)"
  then show "(s2\<lparr>dialogueDataType := ''command''\<rparr>, s0) \<in> measure budget"
    using advance_text_budget_command[of s x1 x2a x3 x4] by (simp add: budget_def)
next
  fix s0 s :: state and x2 os s2
  assume "s = s0\<lparr>optionsCount := 0, selectedOption := - 1, selectedOptionUpdated := False\<rparr>"
    "dialogueData s = Some x2" "x2 = OptionsResult os"
    "s2 = advance_options s os" "is_command (dialogueData s2)"
  then show "(s2\<lparr>dialogueDataType := ''command''\<rparr>, s0) \<in> measure budget"
    by (simp add: advance_options_def)
next
  fix s0 s :: state and x2 ctext s1 calls t
  assume "s = s0\<lparr>optionsCount := 0, selectedOption := - 1, selectedOptionUpdated := False\<rparr>"
    "dialogueData s = Some x2" "x2 = CommandResult ctext"
    "s1 = s\<lparr>dialogueDataType := ''command''\<rparr>"
  then show "(queue_command s1 ctext calls t, s0) \<in> measure budget"
    using queue_command_budget[of s1 ctext calls t] by (simp add: budget_def)
next
  fix s0 s :: state and x2 ctext s1 calls t s2 u
  assume "s = s0\<lparr>optionsCount := 0, selectedOption := - 1, selectedOptionUpdated := False\<rparr>"
    "dialogueData s = Some x2" "x2 = CommandResult ctext"
    "s1 = s\<lparr>dialogueDataType := ''command''\<rparr>"
    "goToNextDialogueLine (queue_command s1 ctext calls t) = Return s2 u"
    "goToNextDialogueLine_dom (queue_command s1 ctext calls t)"
  then show "(s2\<lparr>dialogueDataType := ''command''\<rparr>, s0) \<in> measure budget"
    using queue_command_budget[of s1 ctext calls t]
      goToNext_budget[of "queue_command s1 ctext calls t"] by (simp add: budget_def)
next
  fix s0 s :: state and s2
  assume "s = s0\<lparr>optionsCount := 0, selectedOption := - 1, selectedOptionUpdated := False\<rparr>"
    "dialogueData s = None"
    "s2 = s\<lparr>dialogueDataType := ''unknown''\<rparr>" "is_command (dialogueData s2)"
  then show "(s2\<lparr>dialogueDataType := ''command''\<rparr>, s0) \<in> measure budget"
    by simp
qed

section \<open>The example sessions, evaluated\<close>

lemma hi_session_eq:
  "hi_session = (loaded hi_script)\<lparr>dialogueIsRunning := True, dialogueDataType := ''text'',
      dialogueText := Some ''Hi'', commandCalls := Some [], callsId := 2,
      commandParameters := Some [], options := Some [], dialogueBranchTitle := ''Start'',
      dialogueBranchBody := ''Hi''\<rparr>"
  by (simp add: hi_session_def startFrom_def loaded_def hi_script_def hasDialogueBranch_def
      runner_run_def pull_def advance_text_def Let_def)

lemma blank_session_eq:
  "blank_session = (loaded blank_script)\<lparr>dialogueIsRunning := True,
      dialogueDataType := ''text'', dialogueText := Some [], commandCalls := Some [],
      callsId := 2, commandParameters := Some [], options := Some [],
      dialogueBranchTitle := ''Start''\<rparr>"
  by (simp add: blank_session_def startFrom_def loaded_def blank_script_def
      hasDialogueBranch_def runner_run_def pull_def advance_text_def Let_def)

lemma wait_session_eq:
  "wait_session = (loaded wait_script)\<lparr>dialogueIsRunning := True, dialogueDataType := ''text'',
      dialogueText := Some ''Hi there'',
      commandCalls := Some [\<lparr>cmd = ''wait'', params = [''wait'', ''500''], time = 3\<rparr>],
      callsId := 2, commandParameters := Some [], options := Some [],
      dialogueBranchTitle := ''Start'', dialogueBranchBody := ''Hi <<wait 500>> there''\<rparr>"
  by (simp add: wait_session_def startFrom_def loaded_def wait_script_def hasDialogueBranch_def
      runner_run_def pull_def advance_text_def queue_command_def Let_def)

lemma options_session_eq:
  "options_session = (loaded options_script)\<lparr>dialogueIsRunning := True,
      dialogueData := Some (OptionsResult [''Yes'', ''No'']), dialogueDataType := ''options'',
      dialogueText := Some [], commandCalls := Some [], callsId := 1,
      commandParameters := Some [], options := Some [''Yes'', ''No''], optionsCount := 2,
      selectedOptionUpdated := True\<rparr>"
  by (simp add: options_session_def startFrom_def loaded_def options_script_def
      hasDialogueBranch_def runner_run_def pull_def advance_options_def Let_def)

lemma wait_session_fields:
  "commandCalls wait_session = Some [\<lparr>cmd = ''wait'', params = [''wait'', ''500''], time = 3\<rparr>]"
  "dialogueText wait_session = Some ''Hi there''"
  "dialogueIsRunning wait_session" "\<not> pauseScrolling wait_session"
  "clipTextEnd wait_session = 0" "timers wait_session = []" "callsId wait_session = 2"
  "dialogueDataType wait_session = ''text''" "dialogueData wait_session = None"
  by (simp_all add: wait_session_eq loaded_def)

lemma hi_session_fields:
  "commandCalls hi_session = Some []" "dialogueText hi_session = Some ''Hi''"
  "dialogueIsRunning hi_session" "\<not> pauseScrolling hi_session"
  "clipTextEnd hi_session = 0" "dialogueDataType hi_session = ''text''"
  "dialogueData hi_session = None" "dialogue hi_session = []"
  by (simp_all add: hi_session_eq loaded_def)

lemma blank_session_fields:
  "dialogueText blank_session = Some []" "dialogueIsRunning blank_session"
  "\<not> pauseScrolling blank_session" "clipTextEnd blank_session = 0"
  "dialogueDataType blank_session = ''text''" "dialogueData blank_session = None"
  "dialogue blank_session = []"
  by (simp_all add: blank_session_eq loaded_def)

lemma options_session_fields:
  "dialogueData options_session = Some (OptionsResult [''Yes'', ''No''])"
  "options options_session = Some [''Yes'', ''No'']" "selectedOption options_session = - 1"
  "selectedOptionUpdated options_session" "dialogueIsRunning options_session"
  "dialogueDataType options_session = ''options''"
  by (simp_all add: options_session_eq loaded_def)

lemma pair_session_eq:
  "pair_session = (loaded pair_script)\<lparr>dialogueIsRunning := True,
      dialogueData := Some (TextResult ''Bye'' ''Start'' ''Hi'' []), dialogueDataType := ''text'',
      dialogueText := Some ''Hi'', commandCalls := Some [], callsId := 2,
      commandParameters := Some [], options := Some [], dialogueBranchTitle := ''Start'',
      dialogueBranchBody := ''Hi''\<rparr>"
  by (simp add: pair_session_def startFrom_def loaded_def pair_script_def hasDialogueBranch_def
      runner_run_def pull_def advance_text_def Let_def)

lemma pair_session_fields:
  "dialogueData pair_session = Some (TextResult ''Bye'' ''Start'' ''Hi'' [])"
  "dialogueIsRunning pair_session" "dialogueText pair_session = Some ''Hi''"
  "\<not> selectedOptionUpdated pair_session"
  by (simp_all add: pair_session_eq loaded_def)

lemma twice_session_eq:
  "twice_session = (loaded twice_script)\<lparr>dialogueIsRunning := True,
      dialogueDataType := ''unknown'', dialogueText := Some ''Hi'',
      commandCalls := Some [\<lparr>cmd = ''slam'', params = [''slam'', ''door''], time = 2\<rparr>,
                            \<lparr>cmd = ''slam'', params = [''slam'', ''gate''], time = 2\<rparr>],
      callsId := 2, commandParameters := Some [], options := Some [],
      dialogueBranchTitle := ''Start'', dialogueBranchBody := ''Hi''\<rparr>"
  by (simp add: twice_session_def startFrom_def loaded_def twice_script_def hasDialogueBranch_def
      runner_run_def pull_def advance_text_def queue_command_def Let_def)

lemma twice_session_fields:
  "commandCalls twice_session
     = Some [\<lparr>cmd = ''slam'', params = [''slam'', ''door''], time = 2\<rparr>,
             \<lparr>cmd = ''slam'', params = [''slam'', ''gate''], time = 2\<rparr>]"
  "dialogueText twice_session = Some ''Hi''" "dialogueIsRunning twice_session"
  "\<not> pauseScrolling twice_session" "clipTextEnd twice_session = 0"
  by (simp_all add: twice_session_eq loaded_def)

section \<open>Starting from an unknown branch\<close>

lemma hasDialogueBranch_iff:
  "hasDialogueBranch s branchName \<longleftrightarrow> (\<exists>ys. yarnNodes s = Some ys \<and> branchName \<in> fst ` set ys)"
  by (auto simp: hasDialogueBranch_def list_ex_iff split: option.splits)

text \<open>
  C4. When \<open>nodeId\<close> is not the title of a branch of the loaded script, \<^verbatim>\<open>startFrom(nodeId)\<close>
  returns without an exception and leaves every field of the module as it was: line text,
  clip cursor, options, command queue and branch metadata are unchanged, and the running
  flag keeps its value, so a module that was not running is still not running.
\<close>

theorem startFrom_unknown_branch:
  assumes "\<not> hasDialogueBranch s nodeId"
  shows "startFrom s nodeId = Return s ()
         \<and> dialogueIsRunning (outcome_state (startFrom s nodeId)) = dialogueIsRunning s"
  using assms by (simp add: startFrom_def)

theorem startFrom_unknown_branch_witness:
  "\<not> hasDialogueBranch (loaded hi_script) ''Nope''
   \<and> startFrom (loaded hi_script) ''Nope'' = Return (loaded hi_script) ()
   \<and> \<not> dialogueIsRunning (outcome_state (startFrom (loaded hi_script) ''Nope''))"
proof -
  have h: "\<not> hasDialogueBranch (loaded hi_script) ''Nope''"
    by (simp add: hasDialogueBranch_def loaded_def hi_script_def)
  have "\<not> dialogueIsRunning (loaded hi_script)"
    by (simp add: loaded_def)
  with h startFrom_unknown_branch[OF h] show ?thesis by simp
qed

section \<open>The type of the line while a wait has expired\<close>

text \<open>
  C10. Whenever the command queue holds an entry named "wait" whose fire offset is
  strictly below \<^verbatim>\<open>clipTextEnd\<close>, \<^verbatim>\<open>isDialogueLineType(t)\<close> is the negation of the pause flag,
  whatever \<open>t\<close> and the type of the current node are. Only when there is no such entry
  (or no queue at all) does it compare \<open>t\<close> with the type of the current node, and it
  answers false when no session is running.
\<close>

theorem isDialogueLineType_expired_wait:
  "(commandCalls s = Some calls \<and> (\<exists>c \<in> set calls. time c < clipTextEnd s \<and> cmd c = ''wait'')
      \<longrightarrow> isDialogueLineType s t = (\<not> pauseScrolling s))
   \<and> (commandCalls s = None \<or>
        (commandCalls s = Some calls \<and> \<not> (\<exists>c \<in> set calls. time c < clipTextEnd s \<and> cmd c = ''wait''))
      \<longrightarrow> isDialogueLineType s t = (dialogueIsRunning s \<and> dialogueDataType s = t))"
  by (auto simp: isDialogueLineType_def list_ex_iff)

theorem isDialogueLineType_expired_wait_witness:
  "commandCalls ((scrollClippedText ^^ 4) wait_session)
     = Some [\<lparr>cmd = ''wait'', params = [''wait'', ''500''], time = 3\<rparr>]
   \<and> clipTextEnd ((scrollClippedText ^^ 4) wait_session) = 4
   \<and> dialogueDataType ((scrollClippedText ^^ 4) wait_session) = ''text''
   \<and> isDialogueLineType ((scrollClippedText ^^ 4) wait_session) ''options''
   \<and> commandCalls hi_session = Some []
   \<and> isDialogueLineType hi_session ''text''
   \<and> \<not> isDialogueLineType hi_session ''options''"
proof -
  let ?w = "(scrollClippedText ^^ 4) wait_session"
  have w: "commandCalls ?w = Some [\<lparr>cmd = ''wait'', params = [''wait'', ''500''], time = 3\<rparr>]"
    "clipTextEnd ?w = 4" "\<not> pauseScrolling ?w" "dialogueDataType ?w = ''text''"
    by (simp_all add: eval_nat_numeral scrollClippedText_def wait_session_fields)
  show ?thesis
    using isDialogueLineType_expired_wait[of ?w "[\<lparr>cmd = ''wait'', params = [''wait'', ''500''], time = 3\<rparr>]" "''options''"]
      isDialogueLineType_expired_wait[of hi_session "[]" "''text''"]
      isDialogueLineType_expired_wait[of hi_session "[]" "''options''"]
      w hi_session_fields
    by simp
qed

section \<open>Scrolling\<close>

lemma scroll_funpow_le: "clipTextEnd s \<le> clipTextEnd ((scrollClippedText ^^ n) s)"
proof (induction n)
  case 0
  show ?case by simp
next
  case (Suc n)
  have "clipTextEnd x \<le> clipTextEnd (scrollClippedText x)" for x
    by (simp add: scrollClippedText_def)
  from order_trans[OF Suc this] show ?case by simp
qed

lemma scroll_funpow_active:
  "\<not> pauseScrolling s \<Longrightarrow> dialogueIsRunning s \<Longrightarrow> truthy (dialogueText s) \<Longrightarrow>
   (scrollClippedText ^^ n) s = s\<lparr>clipTextEnd := clipTextEnd s + n\<rparr>"
  by (induction n) (simp_all add: scrollClippedText_def)

text \<open>
  C2, as the code has it. For any sequence of scroll ticks on one line, \<^verbatim>\<open>clipTextEnd\<close>
  never decreases. A tick changes nothing when scrolling is paused, when no session is
  running, or when the line is empty; otherwise it adds exactly 1, with no upper bound:
  \<open>n\<close> ticks add \<open>n\<close>, also beyond the length of the line. What is bounded is the
  text shown: \<^verbatim>\<open>getClippedLineText\<close> cuts at the end of the line. Completing the line
  twice is the same as completing it once.
\<close>

theorem scrolling_monotone_unclamped:
  "clipTextEnd s \<le> clipTextEnd ((scrollClippedText ^^ n) s)
   \<and> (pauseScrolling s \<or> \<not> dialogueIsRunning s \<or> \<not> truthy (dialogueText s)
        \<longrightarrow> scrollClippedText s = s)
   \<and> (\<not> pauseScrolling s \<and> dialogueIsRunning s \<and> truthy (dialogueText s)
        \<longrightarrow> scrollClippedText s = s\<lparr>clipTextEnd := clipTextEnd s + 1\<rparr>
            \<and> clipTextEnd ((scrollClippedText ^^ n) s) = clipTextEnd s + n)
   \<and> (dialogueText s = Some t
        \<longrightarrow> getClippedLineText s = Return s (take (clipTextEnd s) t)
            \<and> length (take (clipTextEnd s) t) \<le> length t)
   \<and> completeClippedTextScrolling (completeClippedTextScrolling s)
       = completeClippedTextScrolling s"
proof -
  have "completeClippedTextScrolling (completeClippedTextScrolling s)
       = completeClippedTextScrolling s"
    by (simp add: completeClippedTextScrolling_def)
  moreover have "dialogueText s = Some t \<longrightarrow> getClippedLineText s = Return s (take (clipTextEnd s) t)"
    by (simp add: getClippedLineText_def)
  ultimately show ?thesis
    using scroll_funpow_le[of s n] scroll_funpow_active[of s n]
    by (auto simp: scrollClippedText_def)
qed

theorem scrolling_monotone_unclamped_witness:
  "clipTextEnd ((scrollClippedText ^^ 3) hi_session) = 3
   \<and> scrollClippedText hi_session = hi_session\<lparr>clipTextEnd := 1\<rparr>
   \<and> scrollClippedText (loaded hi_script) = loaded hi_script
   \<and> getClippedLineText ((scrollClippedText ^^ 3) hi_session)
       = Return ((scrollClippedText ^^ 3) hi_session) ''Hi''"
proof -
  have a: "\<not> pauseScrolling hi_session \<and> dialogueIsRunning hi_session \<and> truthy (dialogueText hi_session)"
    by (simp add: hi_session_fields)
  have b: "pauseScrolling (loaded hi_script) \<or> \<not> dialogueIsRunning (loaded hi_script)
           \<or> \<not> truthy (dialogueText (loaded hi_script))"
    by (simp add: loaded_def)
  have c: "dialogueText ((scrollClippedText ^^ 3) hi_session) = Some ''Hi''"
    "clipTextEnd ((scrollClippedText ^^ 3) hi_session) = 3"
    by (simp_all add: eval_nat_numeral scrollClippedText_def hi_session_fields)
  show ?thesis
    using scrolling_monotone_unclamped[of hi_session 3 "''Hi''"] a
      scrolling_monotone_unclamped[of "loaded hi_script" 0 "''Hi''"] b
      scrolling_monotone_unclamped[of "(scrollClippedText ^^ 3) hi_session" 0 "''Hi''"] c
    by (simp add: hi_session_fields)
qed

text \<open>
  C2 as stated fails: on the line "Hi" of a session started from \<open>hi_script\<close>, three
  ticks leave \<^verbatim>\<open>clipTextEnd\<close> at 3, beyond the length 2 of the line.
\<close>

theorem scrolling_clamp_counterexample:
  "dialogueText ((scrollClippedText ^^ 3) hi_session) = Some ''Hi''
   \<and> clipTextEnd ((scrollClippedText ^^ 3) hi_session) = 3
   \<and> \<not> clipTextEnd ((scrollClippedText ^^ 3) hi_session)
        \<le> length (js_string (dialogueText ((scrollClippedText ^^ 3) hi_session)))"
  by (simp add: eval_nat_numeral scrollClippedText_def hi_session_fields)

section \<open>The lazy end of a session\<close>

text \<open>
  C5, as the code has it. \<^verbatim>\<open>isRunning()\<close> returns the running flag as it is after the
  call. While the flag is set and a node is current or pending (an options node, or the
  node after the text shown) it returns true and changes nothing. The call itself clears
  the flag exactly when the flag is set, no node is left, and the line is a non-empty
  text with \<^verbatim>\<open>clipTextEnd\<close> at or beyond its length.
\<close>

theorem isRunning_lazy_end:
  "snd (isRunning s) = dialogueIsRunning (fst (isRunning s))
   \<and> (dialogueIsRunning s \<and> dialogueData s \<noteq> None \<longrightarrow> isRunning s = (s, True))
   \<and> fst (isRunning s) =
       (if dialogueIsRunning s \<and> dialogueData s = None
           \<and> (\<exists>t. dialogueText s = Some t \<and> t \<noteq> [] \<and> length t \<le> clipTextEnd s)
        then s\<lparr>dialogueIsRunning := False\<rparr> else s)"
  by (cases "dialogueText s") (auto simp: isRunning_def Let_def)

theorem isRunning_lazy_end_witness:
  "isRunning options_session = (options_session, True)
   \<and> isRunning hi_session = (hi_session, True)
   \<and> isRunning ((scrollClippedText ^^ 2) hi_session)
       = (((scrollClippedText ^^ 2) hi_session)\<lparr>dialogueIsRunning := False\<rparr>, False)"
proof -
  let ?h = "(scrollClippedText ^^ 2) hi_session"
  have h: "dialogueIsRunning ?h" "dialogueData ?h = None" "dialogueText ?h = Some ''Hi''"
    "clipTextEnd ?h = 2"
    by (simp_all add: eval_nat_numeral scrollClippedText_def hi_session_fields)
  have "isRunning x = (fst (isRunning x), snd (isRunning x))" for x by simp
  then show ?thesis
    using isRunning_lazy_end[of options_session] isRunning_lazy_end[of hi_session]
      isRunning_lazy_end[of ?h] h
    by (simp add: options_session_fields hi_session_fields prod_eq_iff)
qed

text \<open>
  C5 as stated fails on an empty line: in a session whose only node is a text node with
  the empty text, the line is fully scrolled (0 of 0), the sequence is exhausted and no
  node is pending, yet \<^verbatim>\<open>isRunning()\<close> keeps returning true and leaves the flag set.
\<close>

theorem isRunning_blank_line_counterexample:
  "dialogueDataType blank_session = ''text'' \<and> dialogueData blank_session = None
   \<and> dialogue blank_session = [] \<and> dialogueText blank_session = Some []
   \<and> length (js_string (dialogueText blank_session)) \<le> clipTextEnd blank_session
   \<and> isRunning blank_session = (blank_session, True)"
  by (simp add: isRunning_def blank_session_fields)

section \<open>Reading the selection\<close>

text \<open>
  C7, as the code has it. While an options node is current, \<^verbatim>\<open>getSelectedOption()\<close> returns
  the stored index as it is, so it returns -1 as long as nothing is selected; when the
  current node is a text or a command node it returns 0. It never changes the state. It
  is \<^verbatim>\<open>hasSelectedOptionChanged()\<close> that turns a stored -1 into 0: when the selection is
  dirty it returns true, clears the flag and stores 0 in place of -1, and the next call
  returns false and changes nothing; when the selection is not dirty it returns false
  and changes nothing.
\<close>

theorem selected_option_reads:
  "(dialogueData s = Some n \<and> has_select n \<longrightarrow> getSelectedOption s = Return s (selectedOption s))
   \<and> (dialogueData s = Some n \<and> \<not> has_select n \<longrightarrow> getSelectedOption s = Return s 0)
   \<and> (selectedOptionUpdated s \<longrightarrow>
        hasSelectedOptionChanged s
          = (s\<lparr>selectedOptionUpdated := False,
                selectedOption := (if selectedOption s = - 1 then 0 else selectedOption s)\<rparr>, True)
        \<and> hasSelectedOptionChanged (fst (hasSelectedOptionChanged s))
          = (fst (hasSelectedOptionChanged s), False))
   \<and> (\<not> selectedOptionUpdated s \<longrightarrow> hasSelectedOptionChanged s = (s, False))"
  by (simp add: getSelectedOption_def hasSelectedOptionChanged_def Let_def)

theorem selected_option_reads_witness:
  "getSelectedOption options_session = Return options_session (- 1)
   \<and> getSelectedOption pair_session = Return pair_session 0
   \<and> hasSelectedOptionChanged options_session
       = (options_session\<lparr>selectedOptionUpdated := False, selectedOption := 0\<rparr>, True)
   \<and> hasSelectedOptionChanged (fst (hasSelectedOptionChanged options_session))
       = (fst (hasSelectedOptionChanged options_session), False)
   \<and> hasSelectedOptionChanged pair_session = (pair_session, False)"
  using selected_option_reads[of options_session "OptionsResult [''Yes'', ''No'']"]
    selected_option_reads[of pair_session "TextResult ''Bye'' ''Start'' ''Hi'' []"]
  by (simp add: options_session_fields pair_session_fields hasSelectedOptionChanged_def)

text \<open>
  C7 as stated fails: right after \<^verbatim>\<open>startFrom\<close> has reached an options node the stored
  index is -1, and \<^verbatim>\<open>getSelectedOption()\<close> returns -1, not 0.
\<close>

theorem getSelectedOption_counterexample:
  "dialogueData options_session = Some (OptionsResult [''Yes'', ''No''])
   \<and> selectedOption options_session = - 1
   \<and> getSelectedOption options_session = Return options_session (- 1)"
  by (simp add: getSelectedOption_def options_session_fields)

section \<open>Operations that throw\<close>

text \<open>
  C9 fails on the code. \<^verbatim>\<open>selectNextOption\<close>, \<^verbatim>\<open>selectPreviousOption\<close> and
  \<^verbatim>\<open>getSelectedOption\<close> read \<^verbatim>\<open>this.dialogueData.select\<close> without testing
  \<^verbatim>\<open>this.dialogueData\<close>: once the sequence is exhausted (the session started from
  \<open>hi_script\<close>, whose only node is on display), or after \<^verbatim>\<open>stopRunningDialogue\<close> has set the
  node to \<^verbatim>\<open>null\<close>, each of them throws a \<^verbatim>\<open>TypeError\<close> into its caller. Before any session
  has started, \<^verbatim>\<open>getClippedLineText\<close> throws as well, on \<^verbatim>\<open>this.dialogueText.length\<close>.
\<close>

theorem operations_throw_without_node:
  "dialogueData hi_session = None
   \<and> selectNextOption hi_session = Throw TypeError hi_session
   \<and> selectPreviousOption hi_session = Throw TypeError hi_session
   \<and> getSelectedOption hi_session = Throw TypeError hi_session
   \<and> selectNextOption (stopRunningDialogue hi_session)
       = Throw TypeError (stopRunningDialogue hi_session)
   \<and> getClippedLineText (loaded hi_script) = Throw TypeError (loaded hi_script)"
  by (simp add: selectNextOption_def selectPreviousOption_def getSelectedOption_def
      getClippedLineText_def stopRunningDialogue_def hi_session_fields loaded_def)

section \<open>Cycling through the options\<close>

lemma next_in_range:
  assumes "dialogueData s = Some n" "has_select n" "options s = Some os"
    "0 \<le> selectedOption s" "selectedOption s < int (length os)"
  shows "selectNextOption s
         = Return (s\<lparr>selectedOption := (selectedOption s + 1) mod int (length os),
                      selectedOptionUpdated := True\<rparr>) ()"
proof (cases "selectedOption s + 1 = int (length os)")
  case True
  then show ?thesis using assms
    by (simp add: selectNextOption_def cycledOptionIndex_def Let_def)
next
  case False
  then have "(selectedOption s + 1) mod int (length os) = selectedOption s + 1"
    using assms by simp
  then show ?thesis using assms False
    by (simp add: selectNextOption_def cycledOptionIndex_def Let_def)
qed

lemma previous_in_range:
  assumes "dialogueData s = Some n" "has_select n" "options s = Some os"
    "0 \<le> selectedOption s" "selectedOption s < int (length os)"
  shows "selectPreviousOption s
         = Return (s\<lparr>selectedOption := (selectedOption s - 1) mod int (length os),
                      selectedOptionUpdated := True\<rparr>) ()"
proof (cases "selectedOption s = 0")
  case True
  have "0 < int (length os)" using assms(4,5) by linarith
  then have "(- 1) mod int (length os) = int (length os) - 1"
    by (simp add: zmod_minus1)
  then show ?thesis using assms True
    by (simp add: selectPreviousOption_def cycledOptionIndex_def Let_def)
next
  case False
  then have "(selectedOption s - 1) mod int (length os) = selectedOption s - 1"
    using assms by simp
  then show ?thesis using assms False
    by (simp add: selectPreviousOption_def cycledOptionIndex_def Let_def)
qed

lemma next_times:
  assumes "dialogueData s = Some n" "has_select n" "options s = Some os"
    "0 \<le> selectedOption s" "selectedOption s < int (length os)"
  shows "\<exists>s'. repeatedly k selectNextOption s = Return s' ()
          \<and> selectedOption s' = (selectedOption s + int k) mod int (length os)
          \<and> dialogueData s' = dialogueData s \<and> options s' = options s"
  using assms
proof (induction k arbitrary: s)
  case 0
  then show ?case by simp
next
  case (Suc k)
  let ?s1 = "s\<lparr>selectedOption := (selectedOption s + 1) mod int (length os),
                selectedOptionUpdated := True\<rparr>"
  have pos: "0 < int (length os)" using Suc.prems(4,5) by linarith
  have step: "selectNextOption s = Return ?s1 ()"
    using next_in_range[OF Suc.prems] .
  have "\<exists>s'. repeatedly k selectNextOption ?s1 = Return s' ()
          \<and> selectedOption s' = (selectedOption ?s1 + int k) mod int (length os)
          \<and> dialogueData s' = dialogueData ?s1 \<and> options s' = options ?s1"
    using Suc.prems pos by (intro Suc.IH) simp_all
  then obtain s' where s': "repeatedly k selectNextOption ?s1 = Return s' ()"
    "selectedOption s' = (selectedOption ?s1 + int k) mod int (length os)"
    "dialogueData s' = dialogueData ?s1" "options s' = options ?s1" by blast
  have "(selectedOption ?s1 + int k) mod int (length os)
        = ((selectedOption s + 1) mod int (length os) + int k) mod int (length os)"
    by simp
  also have "\<dots> = (selectedOption s + 1 + int k) mod int (length os)"
    by (rule mod_add_left_eq)
  also have "\<dots> = (selectedOption s + int (Suc k)) mod int (length os)"
    by (simp add: algebra_simps)
  finally have "(selectedOption ?s1 + int k) mod int (length os)
        = (selectedOption s + int (Suc k)) mod int (length os)" .
  with s' step show ?case by simp
qed

lemma cycling_in_range:
  assumes "dialogueData s = Some n" "has_select n" "options s = Some os"
    "0 \<le> selectedOption s" "selectedOption s < int (length os)"
  shows "selectNextOption s
           = Return (s\<lparr>selectedOption := (selectedOption s + 1) mod int (length os),
                        selectedOptionUpdated := True\<rparr>) ()
         \<and> selectPreviousOption s
           = Return (s\<lparr>selectedOption := (selectedOption s - 1) mod int (length os),
                        selectedOptionUpdated := True\<rparr>) ()
         \<and> returned (repeatedly (length os) selectNextOption s) = Some ()
         \<and> selectedOption (outcome_state (repeatedly (length os) selectNextOption s))
             = selectedOption s
         \<and> selectPreviousOption (outcome_state (selectNextOption s))
             = Return (s\<lparr>selectedOptionUpdated := True\<rparr>) ()
         \<and> selectNextOption (outcome_state (selectPreviousOption s))
             = Return (s\<lparr>selectedOptionUpdated := True\<rparr>) ()"
proof -
  let ?c = "int (length os)"
  let ?sn = "s\<lparr>selectedOption := (selectedOption s + 1) mod ?c, selectedOptionUpdated := True\<rparr>"
  let ?sp = "s\<lparr>selectedOption := (selectedOption s - 1) mod ?c, selectedOptionUpdated := True\<rparr>"
  have pos: "0 < ?c" using assms(4,5) by linarith
  have n: "selectNextOption s = Return ?sn ()" by (rule next_in_range[OF assms])
  have p: "selectPreviousOption s = Return ?sp ()" by (rule previous_in_range[OF assms])
  obtain s' where s': "repeatedly (length os) selectNextOption s = Return s' ()"
    "selectedOption s' = (selectedOption s + ?c) mod ?c"
    using next_times[OF assms, of "length os"] by blast
  have wrap: "(selectedOption s + ?c) mod ?c = selectedOption s" using assms by simp
  have "selectPreviousOption ?sn
        = Return (?sn\<lparr>selectedOption := (selectedOption ?sn - 1) mod ?c,
                      selectedOptionUpdated := True\<rparr>) ()"
    using assms pos by (intro previous_in_range[of _ n]) simp_all
  moreover have "(selectedOption ?sn - 1) mod ?c = selectedOption s"
    using assms by (simp add: mod_diff_left_eq)
  ultimately have pn: "selectPreviousOption ?sn = Return (s\<lparr>selectedOptionUpdated := True\<rparr>) ()"
    by simp
  have "selectNextOption ?sp
        = Return (?sp\<lparr>selectedOption := (selectedOption ?sp + 1) mod ?c,
                      selectedOptionUpdated := True\<rparr>) ()"
    using assms pos by (intro next_in_range[of _ n]) simp_all
  moreover have "(selectedOption ?sp + 1) mod ?c = selectedOption s"
    using assms by (simp add: mod_add_left_eq)
  ultimately have np: "selectNextOption ?sp = Return (s\<lparr>selectedOptionUpdated := True\<rparr>) ()"
    by simp
  show ?thesis using n p s' wrap pn np by simp
qed

lemma cycling_other_node:
  "dialogueData s = Some n \<Longrightarrow> \<not> has_select n \<Longrightarrow>
   selectNextOption s = Return s () \<and> selectPreviousOption s = Return s ()"
  by (simp add: selectNextOption_def selectPreviousOption_def)

text \<open>
  C6, as the code has it. While an options node is current and the stored index is one of
  the \<open>count\<close> candidates (0 to \<open>count - 1\<close>), \<^verbatim>\<open>selectNextOption\<close> stores the index plus
  one modulo \<open>count\<close> and \<^verbatim>\<open>selectPreviousOption\<close> the index minus one modulo \<open>count\<close>,
  both marking the selection dirty; \<open>count\<close> calls of \<^verbatim>\<open>selectNextOption\<close> return without
  an exception and bring the index back to where it was; each of the two undoes the
  other (the state is the original one with the selection marked dirty). When the
  current node is a text or a command node, both return and change nothing.
\<close>

theorem option_cycling:
  "(dialogueData s = Some n \<and> has_select n \<and> options s = Some os
      \<and> 0 \<le> selectedOption s \<and> selectedOption s < int (length os)
     \<longrightarrow> selectNextOption s
           = Return (s\<lparr>selectedOption := (selectedOption s + 1) mod int (length os),
                        selectedOptionUpdated := True\<rparr>) ()
         \<and> selectPreviousOption s
           = Return (s\<lparr>selectedOption := (selectedOption s - 1) mod int (length os),
                        selectedOptionUpdated := True\<rparr>) ()
         \<and> returned (repeatedly (length os) selectNextOption s) = Some ()
         \<and> selectedOption (outcome_state (repeatedly (length os) selectNextOption s))
             = selectedOption s
         \<and> selectPreviousOption (outcome_state (selectNextOption s))
             = Return (s\<lparr>selectedOptionUpdated := True\<rparr>) ()
         \<and> selectNextOption (outcome_state (selectPreviousOption s))
             = Return (s\<lparr>selectedOptionUpdated := True\<rparr>) ())
   \<and> (dialogueData s = Some n \<and> \<not> has_select n
     \<longrightarrow> selectNextOption s = Return s () \<and> selectPreviousOption s = Return s ())"
  using cycling_in_range[of s n os] cycling_other_node[of s n] by blast

theorem option_cycling_witness:
  "selectedOption (fst (hasSelectedOptionChanged options_session)) = 0
   \<and> selectedOption (outcome_state (selectNextOption (fst (hasSelectedOptionChanged options_session)))) = 1
   \<and> selectedOption (outcome_state (selectPreviousOption (fst (hasSelectedOptionChanged options_session)))) = 1
   \<and> selectedOption (outcome_state
         (repeatedly 2 selectNextOption (fst (hasSelectedOptionChanged options_session)))) = 0
   \<and> selectNextOption pair_session = Return pair_session ()
   \<and> selectPreviousOption pair_session = Return pair_session ()"
proof -
  let ?s = "fst (hasSelectedOptionChanged options_session)"
  have f: "dialogueData ?s = Some (OptionsResult [''Yes'', ''No''])"
    "options ?s = Some [''Yes'', ''No'']" "selectedOption ?s = 0"
    by (simp_all add: hasSelectedOptionChanged_def options_session_fields Let_def)
  show ?thesis
    using option_cycling[of ?s "OptionsResult [''Yes'', ''No'']" "[''Yes'', ''No'']"]
      option_cycling[of pair_session "TextResult ''Bye'' ''Start'' ''Hi'' []" "[]"] f
    by (simp del: repeatedly.simps add: numeral_2_eq_2 pair_session_fields)
qed

text \<open>
  C6 as stated fails at the index -1 that every options node starts with: with the two
  candidates of \<open>options_script\<close>, two calls of \<^verbatim>\<open>selectNextOption\<close> lead from -1 to 1, and
  \<^verbatim>\<open>selectPreviousOption\<close> after \<^verbatim>\<open>selectNextOption\<close> leads from -1 to 1 as well.
\<close>

theorem option_cycling_counterexample:
  "dialogueData options_session = Some (OptionsResult [''Yes'', ''No''])
   \<and> options options_session = Some [''Yes'', ''No'']
   \<and> selectedOption options_session = - 1
   \<and> selectedOption (outcome_state (repeatedly 2 selectNextOption options_session)) = 1
   \<and> selectedOption (outcome_state (selectPreviousOption (outcome_state (selectNextOption options_session)))) = 1"
  by (simp add: eval_nat_numeral selectNextOption_def selectPreviousOption_def cycledOptionIndex_def
      options_session_fields Let_def)

section \<open>Saving and loading\<close>

text \<open>
  C8, as the code has it (over the sink modelled from the spec). Loading what was just
  saved leaves both tables as they were, and loading it into any other state replaces
  both tables by the saved ones, keeping nothing of the old ones. When \<^verbatim>\<open>JSON.parse\<close>
  throws, or yields \<^verbatim>\<open>null\<close>, the error is reported and both tables are untouched. Every
  other parsed value is accepted without any check of its shape: both tables are replaced
  by its \<^verbatim>\<open>visited\<close> and \<^verbatim>\<open>variables\<close> properties, and nothing is reported.
\<close>

theorem persistence_round_trip:
  "loadState s (saveState s out) = (s, [])
   \<and> loadState s' (saveState s out)
       = (s'\<lparr>visited := visited s, variables_data := variables_data s\<rparr>, [])
   \<and> (parseVariable inp = Inl e \<longrightarrow> loadState s inp = (s, [e]))
   \<and> (parseVariable inp = Inr v \<and> property v ''visited'' = None
        \<longrightarrow> loadState s inp = (s, [TypeError]))
   \<and> (parseVariable inp = Inr v \<and> property v ''visited'' = Some a
         \<and> property v ''variables'' = Some b
        \<longrightarrow> loadState s inp = (s\<lparr>visited := a, variables_data := b\<rparr>, []))"
  by (simp add: loadState_def saveState_def objectToVariable_def parseVariable_def)

theorem persistence_round_trip_witness:
  "loadState hi_session Unparsable = (hi_session, [SyntaxError])
   \<and> loadState hi_session (Content JNull) = (hi_session, [TypeError])
   \<and> loadState hi_session (Content (JObj [(''variables'', JObj [(''$gold'', JNum 3)]),
                                          (''visited'', JObj [(''Start'', JBool True)])]))
       = (hi_session\<lparr>visited := JObj [(''Start'', JBool True)],
                      variables_data := JObj [(''$gold'', JNum 3)]\<rparr>, [])"
  using persistence_round_trip[of hi_session Unparsable hi_session Unparsable SyntaxError JNull JNull JNull]
    persistence_round_trip[of hi_session Unparsable hi_session "Content JNull" SyntaxError JNull JNull JNull]
    persistence_round_trip[of hi_session Unparsable hi_session
      "Content (JObj [(''variables'', JObj [(''$gold'', JNum 3)]), (''visited'', JObj [(''Start'', JBool True)])])"
      SyntaxError
      "JObj [(''variables'', JObj [(''$gold'', JNum 3)]), (''visited'', JObj [(''Start'', JBool True)])]"
      "JObj [(''Start'', JBool True)]" "JObj [(''$gold'', JNum 3)]"]
  by (simp add: parseVariable_def)

text \<open>
  C8 as stated fails: a sink holding the number 0 does not have the shape of a persisted
  state, yet \<^verbatim>\<open>loadState\<close> reports nothing and overwrites both tables with \<^verbatim>\<open>undefined\<close>.
\<close>

theorem persistence_shape_counterexample:
  "visited (loaded hi_script) = JObj [] \<and> variables_data (loaded hi_script) = JObj []
   \<and> parseVariable (Content (JNum 0)) = Inr (JNum 0)
   \<and> loadState (loaded hi_script) (Content (JNum 0))
       = ((loaded hi_script)\<lparr>visited := JUndefined, variables_data := JUndefined\<rparr>, [])"
  by (simp add: loadState_def parseVariable_def loaded_def)

section \<open>Scanning the command queue\<close>

text \<open>
  With a line loaded the scan never throws. It reports a match exactly when some entry is
  due and carries the name asked for; the entry removed is then the first such entry, and
  nothing else leaves the queue.
\<close>

lemma scan_calls_returns:
  "\<exists>s' r. scan_calls command clip (Some txt) b rest s = Return s' r
     \<and> callsId s' = callsId s
     \<and> (pauseScrolling s \<longrightarrow> pauseScrolling s')
     \<and> set (timers s) \<subseteq> set (timers s')
     \<and> (r \<longleftrightarrow> (\<exists>e \<in> set rest. time e \<le> clip \<and> cmd e = command))
     \<and> (\<not> r \<longrightarrow> commandCalls s' = commandCalls s \<and> commandParameters s' = commandParameters s)
     \<and> (r \<longrightarrow> (\<exists>j < length rest. time (rest ! j) \<le> clip \<and> cmd (rest ! j) = command
                 \<and> (\<forall>i < j. \<not> (time (rest ! i) \<le> clip \<and> cmd (rest ! i) = command))
                 \<and> commandCalls s' = map_option (splice1 (b + j)) (commandCalls s)
                 \<and> commandParameters s' = Some (params (rest ! j))))"
proof (induction rest arbitrary: b s)
  case Nil
  show ?case by (intro exI[of _ s] exI[of _ False]) simp
next
  case (Cons c rest)
  let ?s1 = "if cmd c = ''wait'' \<and> clip \<noteq> length txt
             then s\<lparr>pauseScrolling := True,
                    timers := timers s @ [\<lparr>target = callsId s, idx = b,
                                           delay = ParseInt10 (element (params c) 1)\<rparr>]\<rparr>
             else s"
  have s1: "callsId ?s1 = callsId s" "pauseScrolling s \<longrightarrow> pauseScrolling ?s1"
    "set (timers s) \<subseteq> set (timers ?s1)" "commandCalls ?s1 = commandCalls s"
    "commandParameters ?s1 = commandParameters s"
    by auto
  show ?case
  proof (cases "time c \<le> clip \<and> cmd c = command")
    case True
    then have "scan_calls command clip (Some txt) b (c # rest) s
               = Return (?s1\<lparr>commandParameters := Some (params c),
                               commandCalls := map_option (splice1 b) (commandCalls ?s1)\<rparr>) True"
      by (simp add: Let_def)
    moreover have "\<exists>j < length (c # rest). time ((c # rest) ! j) \<le> clip \<and> cmd ((c # rest) ! j) = command
                 \<and> (\<forall>i < j. \<not> (time ((c # rest) ! i) \<le> clip \<and> cmd ((c # rest) ! i) = command))
                 \<and> map_option (splice1 b) (commandCalls ?s1) = map_option (splice1 (b + j)) (commandCalls s)
                 \<and> Some (params c) = Some (params ((c # rest) ! j))"
      using True s1(4) by (intro exI[of _ 0]) simp
    ultimately show ?thesis using True s1 by auto
  next
    case False
    let ?s2 = "if time c \<le> clip then ?s1 else s"
    have step: "scan_calls command clip (Some txt) b (c # rest) s
                = scan_calls command clip (Some txt) (Suc b) rest ?s2"
      using False by (auto simp: Let_def)
    have s2: "callsId ?s2 = callsId s" "pauseScrolling s \<longrightarrow> pauseScrolling ?s2"
      "set (timers s) \<subseteq> set (timers ?s2)" "commandCalls ?s2 = commandCalls s"
      "commandParameters ?s2 = commandParameters s"
      by auto
    obtain s' r where ih: "scan_calls command clip (Some txt) (Suc b) rest ?s2 = Return s' r"
      "callsId s' = callsId ?s2" "pauseScrolling ?s2 \<longrightarrow> pauseScrolling s'"
      "set (timers ?s2) \<subseteq> set (timers s')"
      "r \<longleftrightarrow> (\<exists>e \<in> set rest. time e \<le> clip \<and> cmd e = command)"
      "\<not> r \<longrightarrow> commandCalls s' = commandCalls ?s2 \<and> commandParameters s' = commandParameters ?s2"
      "r \<longrightarrow> (\<exists>j < length rest. time (rest ! j) \<le> clip \<and> cmd (rest ! j) = command
                 \<and> (\<forall>i < j. \<not> (time (rest ! i) \<le> clip \<and> cmd (rest ! i) = command))
                 \<and> commandCalls s' = map_option (splice1 (Suc b + j)) (commandCalls ?s2)
                 \<and> commandParameters s' = Some (params (rest ! j)))"
      using Cons.IH[of "Suc b" ?s2] by blast
    have found: "\<exists>j < length (c # rest). time ((c # rest) ! j) \<le> clip \<and> cmd ((c # rest) ! j) = command
                 \<and> (\<forall>i < j. \<not> (time ((c # rest) ! i) \<le> clip \<and> cmd ((c # rest) ! i) = command))
                 \<and> commandCalls s' = map_option (splice1 (b + j)) (commandCalls s)
                 \<and> commandParameters s' = Some (params ((c # rest) ! j))" if r
    proof -
      from ih(7) that obtain j where j: "j < length rest" "time (rest ! j) \<le> clip"
        "cmd (rest ! j) = command"
        "\<forall>i < j. \<not> (time (rest ! i) \<le> clip \<and> cmd (rest ! i) = command)"
        "commandCalls s' = map_option (splice1 (Suc b + j)) (commandCalls ?s2)"
        "commandParameters s' = Some (params (rest ! j))" by blast
      have "\<forall>i < Suc j. \<not> (time ((c # rest) ! i) \<le> clip \<and> cmd ((c # rest) ! i) = command)"
        using j(4) False by (auto simp: nth_Cons split: nat.splits)
      then show ?thesis using j s2(4) by (intro exI[of _ "Suc j"]) simp
    qed
    have "r \<longleftrightarrow> (\<exists>e \<in> set (c # rest). time e \<le> clip \<and> cmd e = command)"
      using ih(5) False by auto
    moreover have "callsId s' = callsId s" using ih(2) s2(1) by simp
    moreover have "pauseScrolling s \<longrightarrow> pauseScrolling s'" using ih(3) s2(2) by blast
    moreover have "set (timers s) \<subseteq> set (timers s')" using ih(4) s2(3) by blast
    moreover have "\<not> r \<longrightarrow> commandCalls s' = commandCalls s \<and> commandParameters s' = commandParameters s"
      using ih(6) s2(4,5) by simp
    ultimately show ?thesis using step ih(1) found by auto
  qed
qed

lemma isCommandCalled_first_match:
  assumes "dialogueText s = Some txt" "commandCalls s = Some cs" "\<not> pauseScrolling s"
  shows "\<exists>s' r. isCommandCalled s command = Return s' r
     \<and> callsId s' = callsId s
     \<and> (r \<longleftrightarrow> (\<exists>e \<in> set cs. time e \<le> clipTextEnd s \<and> cmd e = command))
     \<and> (\<not> r \<longrightarrow> commandCalls s' = Some cs \<and> commandParameters s' = commandParameters s)
     \<and> (r \<longrightarrow> (\<exists>j < length cs. time (cs ! j) \<le> clipTextEnd s \<and> cmd (cs ! j) = command
                 \<and> (\<forall>i < j. \<not> (time (cs ! i) \<le> clipTextEnd s \<and> cmd (cs ! i) = command))
                 \<and> commandCalls s' = Some (splice1 j cs)
                 \<and> commandParameters s' = Some (params (cs ! j))))"
proof -
  have "isCommandCalled s command = scan_calls command (clipTextEnd s) (Some txt) 0 cs s"
    using assms by (simp add: isCommandCalled_def)
  then show ?thesis
    using scan_calls_returns[of "command" "clipTextEnd s" "txt" 0 cs s] assms(2) by auto
qed

text \<open>The scan reaches an eligible wait entry when no earlier entry matches.\<close>

lemma scan_calls_reaches_wait:
  assumes "i < length rest" "cmd (rest ! i) = ''wait''" "time (rest ! i) \<le> clip"
    "clip \<noteq> length txt"
    "\<forall>j < i. \<not> (time (rest ! j) \<le> clip \<and> cmd (rest ! j) = command)"
  shows "\<exists>s' r. scan_calls command clip (Some txt) b rest s = Return s' r
     \<and> pauseScrolling s'
     \<and> \<lparr>target = callsId s, idx = b + i,
          delay = ParseInt10 (element (params (rest ! i)) 1)\<rparr> \<in> set (timers s')
     \<and> (command = ''wait'' \<longrightarrow> r
           \<and> commandCalls s' = map_option (splice1 (b + i)) (commandCalls s)
           \<and> commandParameters s' = Some (params (rest ! i)))
     \<and> (command \<noteq> ''wait'' \<longrightarrow>
           (\<not> r \<longrightarrow> commandCalls s' = commandCalls s)
           \<and> (r \<longrightarrow> (\<exists>j < length rest. i < j \<and> cmd (rest ! j) = command
                  \<and> commandCalls s' = map_option (splice1 (b + j)) (commandCalls s)
                  \<and> commandParameters s' = Some (params (rest ! j)))))"
  using assms
proof (induction rest arbitrary: i b s)
  case Nil
  then show ?case by simp
next
  case (Cons c rest)
  let ?s1 = "if cmd c = ''wait'' \<and> clip \<noteq> length txt
             then s\<lparr>pauseScrolling := True,
                    timers := timers s @ [\<lparr>target = callsId s, idx = b,
                                           delay = ParseInt10 (element (params c) 1)\<rparr>]\<rparr>
             else s"
  show ?case
  proof (cases i)
    case 0
    then have c: "cmd c = ''wait''" "time c \<le> clip" using Cons.prems by simp_all
    let ?w = "s\<lparr>pauseScrolling := True,
                  timers := timers s @ [\<lparr>target = callsId s, idx = b,
                                         delay = ParseInt10 (element (params c) 1)\<rparr>]\<rparr>"
    show ?thesis
    proof (cases "command = ''wait''")
      case True
      then show ?thesis using 0 c Cons.prems(4) by (auto simp: Let_def)
    next
      case False
      have step: "scan_calls command clip (Some txt) b (c # rest) s
                  = scan_calls command clip (Some txt) (Suc b) rest ?w"
        using False c Cons.prems(4) by (simp add: Let_def)
      obtain s' r where t: "scan_calls command clip (Some txt) (Suc b) rest ?w = Return s' r"
        "pauseScrolling ?w \<longrightarrow> pauseScrolling s'" "set (timers ?w) \<subseteq> set (timers s')"
        "\<not> r \<longrightarrow> commandCalls s' = commandCalls ?w \<and> commandParameters s' = commandParameters ?w"
        "r \<longrightarrow> (\<exists>j < length rest. time (rest ! j) \<le> clip \<and> cmd (rest ! j) = command
                 \<and> (\<forall>i < j. \<not> (time (rest ! i) \<le> clip \<and> cmd (rest ! i) = command))
                 \<and> commandCalls s' = map_option (splice1 (Suc b + j)) (commandCalls ?w)
                 \<and> commandParameters s' = Some (params (rest ! j)))"
        using scan_calls_returns[of "command" clip "txt" "Suc b" rest ?w] by blast
      have tm: "\<lparr>target = callsId s, idx = b + i,
                 delay = ParseInt10 (element (params ((c # rest) ! i)) 1)\<rparr> \<in> set (timers s')"
        using t(3) 0 by auto
      have fnd: "\<exists>j < length (c # rest). i < j \<and> cmd ((c # rest) ! j) = command
                  \<and> commandCalls s' = map_option (splice1 (b + j)) (commandCalls s)
                  \<and> commandParameters s' = Some (params ((c # rest) ! j))" if r
      proof -
        from t(5) that obtain j where j: "j < length rest" "cmd (rest ! j) = command"
          "commandCalls s' = map_option (splice1 (Suc b + j)) (commandCalls ?w)"
          "commandParameters s' = Some (params (rest ! j))" by blast
        then show ?thesis using 0 by (intro exI[of _ "Suc j"]) simp
      qed
      show ?thesis using step t(1,2,4) tm fnd False by auto
    qed
  next
    case (Suc i')
    have nm: "\<not> (time c \<le> clip \<and> cmd c = command)"
      using Cons.prems(5) Suc by auto
    let ?s2 = "if time c \<le> clip then ?s1 else s"
    have step: "scan_calls command clip (Some txt) b (c # rest) s
                = scan_calls command clip (Some txt) (Suc b) rest ?s2"
      using nm by (auto simp: Let_def)
    have s2: "callsId ?s2 = callsId s" "commandCalls ?s2 = commandCalls s" by auto
    have p: "i' < length rest" "cmd (rest ! i') = ''wait''" "time (rest ! i') \<le> clip"
      "\<forall>j < i'. \<not> (time (rest ! j) \<le> clip \<and> cmd (rest ! j) = command)"
      using Cons.prems Suc by auto
    obtain s' r where ih: "scan_calls command clip (Some txt) (Suc b) rest ?s2 = Return s' r"
      "pauseScrolling s'"
      "\<lparr>target = callsId ?s2, idx = Suc b + i',
         delay = ParseInt10 (element (params (rest ! i')) 1)\<rparr> \<in> set (timers s')"
      "command = ''wait'' \<longrightarrow> r
           \<and> commandCalls s' = map_option (splice1 (Suc b + i')) (commandCalls ?s2)
           \<and> commandParameters s' = Some (params (rest ! i'))"
      "command \<noteq> ''wait'' \<longrightarrow>
           (\<not> r \<longrightarrow> commandCalls s' = commandCalls ?s2)
           \<and> (r \<longrightarrow> (\<exists>j < length rest. i' < j \<and> cmd (rest ! j) = command
                  \<and> commandCalls s' = map_option (splice1 (Suc b + j)) (commandCalls ?s2)
                  \<and> commandParameters s' = Some (params (rest ! j))))"
      using Cons.IH[OF p(1,2,3) Cons.prems(4) p(4), of "Suc b" ?s2] by blast
    have fnd: "\<exists>j < length (c # rest). i < j \<and> cmd ((c # rest) ! j) = command
                  \<and> commandCalls s' = map_option (splice1 (b + j)) (commandCalls s)
                  \<and> commandParameters s' = Some (params ((c # rest) ! j))"
      if "r" "command \<noteq> ''wait''"
    proof -
      from ih(5) that obtain j where j: "j < length rest" "i' < j" "cmd (rest ! j) = command"
        "commandCalls s' = map_option (splice1 (Suc b + j)) (commandCalls ?s2)"
        "commandParameters s' = Some (params (rest ! j))" by blast
      then show ?thesis using Suc s2(2) by (intro exI[of _ "Suc j"]) simp
    qed
    have tm: "\<lparr>target = callsId s, idx = b + i,
               delay = ParseInt10 (element (params ((c # rest) ! i)) 1)\<rparr> \<in> set (timers s')"
      using ih(3) s2(1) Suc by simp
    have w: "command = ''wait'' \<longrightarrow> r
           \<and> commandCalls s' = map_option (splice1 (b + i)) (commandCalls s)
           \<and> commandParameters s' = Some (params ((c # rest) ! i))"
      using ih(4) s2(2) Suc by simp
    have nw: "command \<noteq> ''wait'' \<longrightarrow> (\<not> r \<longrightarrow> commandCalls s' = commandCalls s)"
      using ih(5) s2(2) by simp
    show ?thesis using step ih(1,2) tm w nw fnd by auto
  qed
qed

section \<open>The wait command\<close>

lemma splice1_keeps_front: "i < j \<Longrightarrow> j < length cs \<Longrightarrow>
   i < length (splice1 j cs) \<and> splice1 j cs ! i = cs ! i"
  by (auto simp: splice1_def nth_append)

text \<open>
  C3, as the code has it. Take a call \<^verbatim>\<open>isCommandCalled(name)\<close> made while scrolling is not
  paused, and a queued entry named "wait" that is due (\<^verbatim>\<open>clipTextEnd\<close> has reached its
  offset) while \<^verbatim>\<open>clipTextEnd\<close> differs from the length of the line, and that the scan
  reaches (no earlier entry is due and named \<open>name\<close>). The call sets the pause flag and
  schedules a timer for \<^verbatim>\<open>parseInt(params[1], 10)\<close> on that entry. Whether the entry is
  reported depends on \<open>name\<close> alone: for \<open>name\<close> = "wait" the call returns true, removes
  the entry and captures its parameters; for any other name the entry is not reported and
  stays in the queue at its index, and a match, if any, is a later entry named \<open>name\<close>.
\<close>

theorem wait_entry_scan:
  assumes "\<not> pauseScrolling s" "commandCalls s = Some cs" "dialogueText s = Some line"
    "i < length cs" "cmd (cs ! i) = ''wait''" "time (cs ! i) \<le> clipTextEnd s"
    "clipTextEnd s \<noteq> length line"
    "\<forall>j < i. \<not> (time (cs ! j) \<le> clipTextEnd s \<and> cmd (cs ! j) = name)"
  shows "\<exists>s' r. isCommandCalled s name = Return s' r
     \<and> pauseScrolling s'
     \<and> \<lparr>target = callsId s, idx = i,
          delay = ParseInt10 (element (params (cs ! i)) 1)\<rparr> \<in> set (timers s')
     \<and> (name = ''wait'' \<longrightarrow> r \<and> commandCalls s' = Some (splice1 i cs)
            \<and> commandParameters s' = Some (params (cs ! i)))
     \<and> (name \<noteq> ''wait'' \<longrightarrow>
           (\<exists>cs'. commandCalls s' = Some cs' \<and> i < length cs' \<and> cs' ! i = cs ! i)
           \<and> (\<not> r \<longrightarrow> commandCalls s' = Some cs)
           \<and> (r \<longrightarrow> (\<exists>j < length cs. i < j \<and> cmd (cs ! j) = name
                  \<and> commandCalls s' = Some (splice1 j cs)
                  \<and> commandParameters s' = Some (params (cs ! j)))))"
proof -
  have eq: "isCommandCalled s name = scan_calls name (clipTextEnd s) (Some line) 0 cs s"
    using assms(1,2,3) by (simp add: isCommandCalled_def)
  obtain s' r where sc: "scan_calls name (clipTextEnd s) (Some line) 0 cs s = Return s' r"
    "pauseScrolling s'"
    "\<lparr>target = callsId s, idx = 0 + i,
       delay = ParseInt10 (element (params (cs ! i)) 1)\<rparr> \<in> set (timers s')"
    "name = ''wait'' \<longrightarrow> r
           \<and> commandCalls s' = map_option (splice1 (0 + i)) (commandCalls s)
           \<and> commandParameters s' = Some (params (cs ! i))"
    "name \<noteq> ''wait'' \<longrightarrow>
           (\<not> r \<longrightarrow> commandCalls s' = commandCalls s)
           \<and> (r \<longrightarrow> (\<exists>j < length cs. i < j \<and> cmd (cs ! j) = name
                  \<and> commandCalls s' = map_option (splice1 (0 + j)) (commandCalls s)
                  \<and> commandParameters s' = Some (params (cs ! j))))"
    using scan_calls_reaches_wait[OF assms(4,5,6,7,8), of 0 s] by blast
  have stays: "\<exists>cs'. commandCalls s' = Some cs' \<and> i < length cs' \<and> cs' ! i = cs ! i"
    if other: "name \<noteq> ''wait''"
  proof (cases r)
    case False
    then show ?thesis using sc(5) other assms(2,4) by simp
  next
    case True
    then obtain j where "j < length cs" "i < j" "commandCalls s' = Some (splice1 j cs)"
      using sc(5) other assms(2) by auto
    then show ?thesis using splice1_keeps_front[of i j cs] by simp
  qed
  show ?thesis
    using eq sc stays assms(2) by (intro exI[of _ s'] exI[of _ r]) auto
qed

lemma wait_session_at_3:
  "(scrollClippedText ^^ 3) wait_session = wait_session\<lparr>clipTextEnd := 3\<rparr>"
  using scroll_funpow_active[of wait_session 3] by (simp add: wait_session_fields)

theorem wait_entry_scan_witness:
  "isCommandCalled ((scrollClippedText ^^ 3) wait_session) ''slam''
     = Return (wait_session\<lparr>clipTextEnd := 3, pauseScrolling := True,
                 timers := [\<lparr>target = 2, idx = 0, delay = ParseInt10 (Some ''500'')\<rparr>]\<rparr>) False
   \<and> returned (isCommandCalled ((scrollClippedText ^^ 3) wait_session) ''wait'') = Some True
   \<and> fire_timer 0 (outcome_state (isCommandCalled ((scrollClippedText ^^ 3) wait_session) ''slam''))
       = wait_session\<lparr>clipTextEnd := 3, pauseScrolling := False, timers := [],
                       commandCalls := Some []\<rparr>"
proof -
  let ?w = "(scrollClippedText ^^ 3) wait_session"
  let ?cs = "[\<lparr>cmd = ''wait'', params = [''wait'', ''500''], time = 3\<rparr>]"
  have w: "\<not> pauseScrolling ?w" "commandCalls ?w = Some ?cs" "dialogueText ?w = Some ''Hi there''"
    "(0::nat) < length ?cs" "cmd (?cs ! 0) = ''wait''" "time (?cs ! 0) \<le> clipTextEnd ?w"
    "clipTextEnd ?w \<noteq> length ''Hi there''"
    by (simp_all add: wait_session_at_3 wait_session_fields)
  have none: "\<forall>j < (0::nat). \<not> (time (?cs ! j) \<le> clipTextEnd ?w \<and> cmd (?cs ! j) = nm)" for nm
    by simp
  have a: "isCommandCalled ?w ''slam''
     = Return (wait_session\<lparr>clipTextEnd := 3, pauseScrolling := True,
                 timers := [\<lparr>target = 2, idx = 0, delay = ParseInt10 (Some ''500'')\<rparr>]\<rparr>) False"
    by (simp add: wait_session_at_3 wait_session_fields isCommandCalled_def Let_def element_def)
  have b: "returned (isCommandCalled ?w ''wait'') = Some True"
    using wait_entry_scan[OF w none, of "''wait''"] by auto
  have "pauseScrolling (outcome_state (isCommandCalled ?w ''slam''))"
    using wait_entry_scan[OF w none, of "''slam''"] by auto
  then show ?thesis using a b
    by (simp add: fire_timer_def wait_session_fields splice1_def Let_def)
qed

text \<open>
  C3 as stated fails: in the scenario "Hi <<wait 500>> there", after three ticks
  \<^verbatim>\<open>isCommandCalled("wait")\<close> returns true for the wait entry (and removes it and captures
  its parameters), besides pausing and scheduling the timer.
\<close>

theorem wait_is_matched_counterexample:
  "commandCalls ((scrollClippedText ^^ 3) wait_session)
     = Some [\<lparr>cmd = ''wait'', params = [''wait'', ''500''], time = 3\<rparr>]
   \<and> clipTextEnd ((scrollClippedText ^^ 3) wait_session) = 3
   \<and> dialogueText ((scrollClippedText ^^ 3) wait_session) = Some ''Hi there''
   \<and> isCommandCalled ((scrollClippedText ^^ 3) wait_session) ''wait''
       = Return (wait_session\<lparr>clipTextEnd := 3, pauseScrolling := True,
                   timers := [\<lparr>target = 2, idx = 0, delay = ParseInt10 (Some ''500'')\<rparr>],
                   commandParameters := Some [''wait'', ''500''], commandCalls := Some []\<rparr>) True"
  by (simp add: wait_session_at_3 wait_session_fields isCommandCalled_def Let_def element_def
      splice1_def)

section \<open>A command fires exactly once\<close>

lemma one_queued_scroll: "one_queued line c s \<Longrightarrow> one_queued line c (scrollClippedText s)"
  by (simp add: one_queued_def scrollClippedText_def)

lemma set_splice1: "set (splice1 n xs) \<subseteq> set xs"
  by (auto simp: splice1_def dest: in_set_takeD in_set_dropD)

lemma one_queued_fire:
  assumes "one_queued line c s"
  shows "one_queued line c (fire_timer n s)"
proof (cases "n < length (timers s)")
  case False
  then show ?thesis using assms by (simp add: fire_timer_def)
next
  case True
  then have "timers s ! n \<in> set (timers s)" by simp
  then have "target (timers s ! n) \<noteq> callsId s"
    using assms by (simp add: one_queued_def)
  then have "fire_timer n s = s\<lparr>pauseScrolling := False, timers := splice1 n (timers s)\<rparr>"
    using True by (simp add: fire_timer_def Let_def)
  then show ?thesis using assms set_splice1[of n "timers s"]
    by (auto simp: one_queued_def)
qed

lemma one_queued_early:
  "one_queued line c s \<Longrightarrow> clipTextEnd s < time c \<Longrightarrow>
   isCommandCalled s name = Return s False"
  by (simp add: one_queued_def isCommandCalled_def)

lemma one_queued_due:
  assumes "one_queued line c s" "time c \<le> clipTextEnd s"
  shows "\<exists>s'. isCommandCalled s (cmd c) = Return s' True \<and> commandCalls s' = Some []
           \<and> commandParameters s' = Some (params c)"
  using assms by (simp add: one_queued_def isCommandCalled_def Let_def splice1_def)

lemma drained_poll: "commandCalls s = Some [] \<Longrightarrow> isCommandCalled s name = Return s False"
  by (simp add: isCommandCalled_def)

lemma drained_play:
  "commandCalls s = Some [] \<Longrightarrow>
   map snd (play name evs s) = replicate (length (play name evs s)) (Some False)"
proof (induction evs arbitrary: s)
  case Nil
  show ?case by simp
next
  case (Cons ev evs)
  show ?case
  proof (cases ev)
    case Tick
    have "commandCalls (scrollClippedText s) = Some []"
      using Cons.prems by (simp add: scrollClippedText_def)
    then show ?thesis using Cons.IH Tick by simp
  next
    case Poll
    then show ?thesis using Cons.IH[OF Cons.prems] drained_poll[OF Cons.prems, of name] by simp
  next
    case (Fire n)
    have "commandCalls (fire_timer n s) = Some []"
      using Cons.prems by (simp add: fire_timer_def Let_def splice1_def)
    then show ?thesis using Cons.IH Fire by simp
  qed
qed

lemma one_queued_play:
  "one_queued line c s \<Longrightarrow>
   map snd (play (cmd c) evs s) = map Some (fires_once (time c) (map fst (play (cmd c) evs s)))"
proof (induction evs arbitrary: s)
  case Nil
  show ?case by simp
next
  case (Cons ev evs)
  show ?case
  proof (cases ev)
    case Tick
    then show ?thesis using Cons.IH[OF one_queued_scroll[OF Cons.prems]] by simp
  next
    case (Fire n)
    then show ?thesis using Cons.IH[OF one_queued_fire[OF Cons.prems]] by simp
  next
    case Poll
    show ?thesis
    proof (cases "time c \<le> clipTextEnd s")
      case False
      then have "isCommandCalled s (cmd c) = Return s False"
        using one_queued_early[OF Cons.prems] by simp
      then show ?thesis using Poll False Cons.IH[OF Cons.prems] by simp
    next
      case True
      then obtain s' where s': "isCommandCalled s (cmd c) = Return s' True"
        "commandCalls s' = Some []"
        using one_queued_due[OF Cons.prems] by blast
      show ?thesis using Poll True s'(1) drained_play[OF s'(2), of "cmd c" evs]
        by (simp add: map_replicate_const)
    qed
  qed
qed

lemma silent_pairs:
  "map snd ps = replicate (length ps) (Some False) \<Longrightarrow>
   filter (\<lambda>p. snd p = Some True) ps = []"
proof (induction ps)
  case Nil
  show ?case by simp
next
  case (Cons p ps)
  then show ?case by simp
qed

lemma fires_once_pairs:
  assumes "map snd ps = map Some (fires_once k (map fst ps))"
  shows "length (filter (\<lambda>p. snd p = Some True) ps) \<le> 1
     \<and> ((\<exists>p \<in> set ps. k \<le> fst p) \<longrightarrow> length (filter (\<lambda>p. snd p = Some True) ps) = 1)
     \<and> (\<forall>p \<in> set ps. snd p = Some True \<longrightarrow> k \<le> fst p)"
  using assms
proof (induction ps)
  case Nil
  show ?case by simp
next
  case (Cons p ps)
  show ?case
  proof (cases "k \<le> fst p")
    case True
    then have "map snd ps = replicate (length ps) (Some False)"
      using Cons.prems by (simp add: map_replicate_const)
    then have "filter (\<lambda>p. snd p = Some True) ps = []" by (rule silent_pairs)
    moreover have "snd p = Some True" using Cons.prems True by simp
    ultimately show ?thesis using True by (auto simp: filter_empty_conv)
  next
    case False
    then have "snd p = Some False" "map snd ps = map Some (fires_once k (map fst ps))"
      using Cons.prems by simp_all
    then show ?thesis using Cons.IH False by auto
  qed
qed

lemma play_ticks:
  "play name (replicate n Tick @ evs) s = play name evs ((scrollClippedText ^^ n) s)"
  by (induction n arbitrary: s) (simp_all add: funpow_swap1)

lemma one_queued_ticks:
  assumes "one_queued line c s"
  shows "one_queued line c ((scrollClippedText ^^ n) s)"
    and "time c \<le> clipTextEnd ((scrollClippedText ^^ time c) s)"
proof -
  show "one_queued line c ((scrollClippedText ^^ n) s)"
    by (induction n) (simp_all add: assms one_queued_scroll)
  show "time c \<le> clipTextEnd ((scrollClippedText ^^ time c) s)"
  proof (cases "line = []")
    case True
    then show ?thesis using assms by (simp add: one_queued_def)
  next
    case False
    then have "(scrollClippedText ^^ time c) s = s\<lparr>clipTextEnd := clipTextEnd s + time c\<rparr>"
      using assms by (intro scroll_funpow_active) (simp_all add: one_queued_def)
    then show ?thesis by simp
  qed
qed

text \<open>
  Where exactly-once firing holds. Take a line with exactly one command call \<open>c\<close> queued
  at an offset \<open>k\<close> within the line, scrolling not paused and no timer pending on this
  queue (\<open>one_queued\<close>), and any interleaving \<open>evs\<close> of scroll ticks, calls of
  \<^verbatim>\<open>isCommandCalled\<close> with the name of \<open>c\<close>, and timer callbacks. Of these calls, the first
  one made with \<^verbatim>\<open>clipTextEnd\<close> at or beyond \<open>k\<close> returns true and every other one returns
  false; \<open>k\<close> ticks followed by a call do return true. The matching call empties the
  queue and captures the parameters of \<open>c\<close>. For any queue, the scan stops at the first
  match: it removes the first due entry of that name only.
\<close>

lemma fires_once_without_pending_timer:
  "(one_queued line c s \<longrightarrow>
      map snd (play (cmd c) evs s) = map Some (fires_once (time c) (map fst (play (cmd c) evs s)))
      \<and> length (filter (\<lambda>p. snd p = Some True) (play (cmd c) evs s)) \<le> 1
      \<and> ((\<exists>p \<in> set (play (cmd c) evs s). time c \<le> fst p)
            \<longrightarrow> length (filter (\<lambda>p. snd p = Some True) (play (cmd c) evs s)) = 1)
      \<and> (\<forall>p \<in> set (play (cmd c) evs s). snd p = Some True \<longrightarrow> time c \<le> fst p)
      \<and> map snd (play (cmd c) (replicate (time c) Tick @ [Poll]) s) = [Some True]
      \<and> (clipTextEnd s < time c \<longrightarrow> isCommandCalled s (cmd c) = Return s False)
      \<and> (time c \<le> clipTextEnd s \<longrightarrow>
            (\<exists>s'. isCommandCalled s (cmd c) = Return s' True \<and> commandCalls s' = Some []
                  \<and> commandParameters s' = Some (params c))))
   \<and> (dialogueText q = Some shown \<and> commandCalls q = Some cs \<and> \<not> pauseScrolling q \<longrightarrow>
        (\<exists>q' r. isCommandCalled q name = Return q' r
           \<and> (r \<longleftrightarrow> (\<exists>e \<in> set cs. time e \<le> clipTextEnd q \<and> cmd e = name))
           \<and> (\<not> r \<longrightarrow> commandCalls q' = Some cs \<and> commandParameters q' = commandParameters q)
           \<and> (r \<longrightarrow> (\<exists>j < length cs. time (cs ! j) \<le> clipTextEnd q \<and> cmd (cs ! j) = name
                 \<and> (\<forall>i < j. \<not> (time (cs ! i) \<le> clipTextEnd q \<and> cmd (cs ! i) = name))
                 \<and> commandCalls q' = Some (splice1 j cs)
                 \<and> commandParameters q' = Some (params (cs ! j))))))"
proof (intro conjI impI)
  assume q1: "one_queued line c s"
  let ?ps = "play (cmd c) evs s"
  show tr: "map snd ?ps = map Some (fires_once (time c) (map fst ?ps))"
    by (rule one_queued_play[OF q1])
  note fp = fires_once_pairs[OF tr]
  show "length (filter (\<lambda>p. snd p = Some True) ?ps) \<le> 1"
    using fp by blast
  show "length (filter (\<lambda>p. snd p = Some True) ?ps) = 1" if "\<exists>p \<in> set ?ps. time c \<le> fst p"
    using fp that by blast
  show "\<forall>p \<in> set ?ps. snd p = Some True \<longrightarrow> time c \<le> fst p"
    using fp by blast
  show "map snd (play (cmd c) (replicate (time c) Tick @ [Poll]) s) = [Some True]"
  proof -
    let ?s' = "(scrollClippedText ^^ time c) s"
    obtain s'' where "isCommandCalled ?s' (cmd c) = Return s'' True"
      using one_queued_due[OF one_queued_ticks(1)[OF q1] one_queued_ticks(2)[OF q1]] by blast
    then show ?thesis by (simp add: play_ticks)
  qed
  show "isCommandCalled s (cmd c) = Return s False" if "clipTextEnd s < time c"
    using one_queued_early[OF q1 that] .
  show "\<exists>s'. isCommandCalled s (cmd c) = Return s' True \<and> commandCalls s' = Some []
                  \<and> commandParameters s' = Some (params c)" if "time c \<le> clipTextEnd s"
    using one_queued_due[OF q1 that] .
next
  assume q: "dialogueText q = Some shown \<and> commandCalls q = Some cs \<and> \<not> pauseScrolling q"
  then obtain q' r where m: "isCommandCalled q name = Return q' r"
    "r \<longleftrightarrow> (\<exists>e \<in> set cs. time e \<le> clipTextEnd q \<and> cmd e = name)"
    "\<not> r \<longrightarrow> commandCalls q' = Some cs \<and> commandParameters q' = commandParameters q"
    "r \<longrightarrow> (\<exists>j < length cs. time (cs ! j) \<le> clipTextEnd q \<and> cmd (cs ! j) = name
                 \<and> (\<forall>i < j. \<not> (time (cs ! i) \<le> clipTextEnd q \<and> cmd (cs ! i) = name))
                 \<and> commandCalls q' = Some (splice1 j cs)
                 \<and> commandParameters q' = Some (params (cs ! j)))"
    using isCommandCalled_first_match[of q shown cs name] by blast
  show "\<exists>q' r. isCommandCalled q name = Return q' r
           \<and> (r \<longleftrightarrow> (\<exists>e \<in> set cs. time e \<le> clipTextEnd q \<and> cmd e = name))
           \<and> (\<not> r \<longrightarrow> commandCalls q' = Some cs \<and> commandParameters q' = commandParameters q)
           \<and> (r \<longrightarrow> (\<exists>j < length cs. time (cs ! j) \<le> clipTextEnd q \<and> cmd (cs ! j) = name
                 \<and> (\<forall>i < j. \<not> (time (cs ! i) \<le> clipTextEnd q \<and> cmd (cs ! i) = name))
                 \<and> commandCalls q' = Some (splice1 j cs)
                 \<and> commandParameters q' = Some (params (cs ! j))))"
    by (intro exI[of _ q'] exI[of _ r] conjI m)
qed

lemma fires_once_example:
  "one_queued ''Hi there'' \<lparr>cmd = ''wait'', params = [''wait'', ''500''], time = 3\<rparr> wait_session
   \<and> play ''wait'' [Poll, Tick, Tick, Tick, Poll, Fire 0, Tick, Poll] wait_session
       = [(0, Some False), (3, Some True), (4, Some False)]
   \<and> length (filter (\<lambda>p. snd p = Some True)
         (play ''wait'' [Poll, Tick, Tick, Tick, Poll, Fire 0, Tick, Poll] wait_session)) = 1
   \<and> isCommandCalled wait_session ''wait'' = Return wait_session False
   \<and> returned (isCommandCalled ((scrollClippedText ^^ 3) wait_session) ''wait'') = Some True
   \<and> commandCalls (outcome_state (isCommandCalled ((scrollClippedText ^^ 3) wait_session) ''wait''))
       = Some []
   \<and> returned (isCommandCalled ((scrollClippedText ^^ 2) twice_session) ''slam'') = Some True
   \<and> isCommandCalled ((scrollClippedText ^^ 2) twice_session) ''slam''
       = Return (twice_session\<lparr>clipTextEnd := 2,
                   commandParameters := Some [''slam'', ''door''],
                   commandCalls := Some [\<lparr>cmd = ''slam'', params = [''slam'', ''gate''], time = 2\<rparr>]\<rparr>)
           True"
proof -
  let ?c = "\<lparr>cmd = ''wait'', params = [''wait'', ''500''], time = 3\<rparr>"
  let ?evs = "[Poll, Tick, Tick, Tick, Poll, Fire 0, Tick, Poll]"
  let ?w = "(scrollClippedText ^^ 3) wait_session"
  let ?q = "(scrollClippedText ^^ 2) twice_session"
  let ?cs = "[\<lparr>cmd = ''slam'', params = [''slam'', ''door''], time = 2\<rparr>,
              \<lparr>cmd = ''slam'', params = [''slam'', ''gate''], time = 2\<rparr>]"
  have q1: "one_queued ''Hi there'' ?c wait_session"
    by (simp add: one_queued_def wait_session_fields)
  have q3: "one_queued ''Hi there'' ?c ?w"
    by (simp add: one_queued_def wait_session_at_3 wait_session_fields)
  have due: "time ?c \<le> clipTextEnd ?w"
    by (simp add: wait_session_at_3)
  have early: "clipTextEnd wait_session < time ?c"
    by (simp add: wait_session_fields)
  have tr: "play ''wait'' ?evs wait_session = [(0, Some False), (3, Some True), (4, Some False)]"
    by (simp add: scrollClippedText_def isCommandCalled_def fire_timer_def wait_session_fields
        Let_def splice1_def)
  have qe: "?q = twice_session\<lparr>clipTextEnd := 2\<rparr>"
    using scroll_funpow_active[of twice_session 2] by (simp add: twice_session_fields)
  have qh: "dialogueText ?q = Some ''Hi'' \<and> commandCalls ?q = Some ?cs \<and> \<not> pauseScrolling ?q"
    by (simp add: qe twice_session_fields)
  have some_due: "\<exists>e \<in> set ?cs. time e \<le> clipTextEnd ?q \<and> cmd e = ''slam''"
    by (simp add: qe)
  have hit: "isCommandCalled ?q ''slam''
       = Return (twice_session\<lparr>clipTextEnd := 2,
                   commandParameters := Some [''slam'', ''door''],
                   commandCalls := Some [\<lparr>cmd = ''slam'', params = [''slam'', ''gate''], time = 2\<rparr>]\<rparr>)
           True"
    by (simp add: qe isCommandCalled_def twice_session_fields Let_def splice1_def)
  note a = fires_once_without_pending_timer[of "''Hi there''" ?c wait_session ?evs ?q "''Hi''" ?cs "''slam''"]
  note b = fires_once_without_pending_timer[of "''Hi there''" ?c ?w "[]" ?q "''Hi''" ?cs "''slam''"]
  note a1 = a[THEN conjunct1, rule_format, OF q1]
  have "(\<exists>p \<in> set (play (cmd ?c) ?evs wait_session). time ?c \<le> fst p)
        \<longrightarrow> length (filter (\<lambda>p. snd p = Some True) (play (cmd ?c) ?evs wait_session)) = 1"
    using a1 by (elim conjE)
  then have once: "length (filter (\<lambda>p. snd p = Some True) (play ''wait'' ?evs wait_session)) = 1"
    using tr by simp
  have "clipTextEnd wait_session < time ?c
        \<longrightarrow> isCommandCalled wait_session (cmd ?c) = Return wait_session False"
    using a1 by (elim conjE)
  then have miss: "isCommandCalled wait_session ''wait'' = Return wait_session False"
    using early by simp
  from b[THEN conjunct1, rule_format, OF q3]
  have "time ?c \<le> clipTextEnd ?w \<longrightarrow>
        (\<exists>s'. isCommandCalled ?w (cmd ?c) = Return s' True \<and> commandCalls s' = Some []
              \<and> commandParameters s' = Some (params ?c))"
    by (elim conjE)
  with due obtain s' where "isCommandCalled ?w (cmd ?c) = Return s' True"
    "commandCalls s' = Some []" by blast
  then have fire: "returned (isCommandCalled ?w ''wait'') = Some True
              \<and> commandCalls (outcome_state (isCommandCalled ?w ''wait'')) = Some []"
    by simp
  from a[THEN conjunct2, rule_format, OF qh] obtain q' r
    where m: "isCommandCalled ?q ''slam'' = Return q' r"
      "r \<longleftrightarrow> (\<exists>e \<in> set ?cs. time e \<le> clipTextEnd ?q \<and> cmd e = ''slam'')"
    by blast
  have first: "returned (isCommandCalled ?q ''slam'') = Some True"
    using m some_due by simp
  show ?thesis using q1 tr once miss fire first hit by simp
qed

section \<open>A command lost to the timer of a wait\<close>

lemma shake_session_eq:
  "shake_session = (loaded shake_script)\<lparr>dialogueIsRunning := True,
      dialogueDataType := ''text'', dialogueText := Some ''Hi!'',
      commandCalls := Some [\<lparr>cmd = ''wait'', params = [''wait'', ''100''], time = 2\<rparr>,
                            \<lparr>cmd = ''shake'', params = [''shake'', ''hard''], time = 3\<rparr>],
      callsId := 2, commandParameters := Some [], options := Some [],
      dialogueBranchTitle := ''Start'',
      dialogueBranchBody := ''Hi<<wait 100>><<shake hard>>!''\<rparr>"
  by (simp add: shake_session_def startFrom_def loaded_def shake_script_def hasDialogueBranch_def
      runner_run_def pull_def advance_text_def queue_command_def Let_def)

lemma shake_session_fields:
  "commandCalls shake_session
     = Some [\<lparr>cmd = ''wait'', params = [''wait'', ''100''], time = 2\<rparr>,
             \<lparr>cmd = ''shake'', params = [''shake'', ''hard''], time = 3\<rparr>]"
  "dialogueText shake_session = Some ''Hi!''" "dialogueIsRunning shake_session"
  "\<not> pauseScrolling shake_session" "clipTextEnd shake_session = 0"
  "timers shake_session = []" "callsId shake_session = 2"
  by (simp_all add: shake_session_eq loaded_def)

lemma shake_paused_eq:
  "isCommandCalled ((scrollClippedText ^^ 2) shake_session) ''wait''
     = Return (shake_session\<lparr>clipTextEnd := 2, pauseScrolling := True,
                 timers := [\<lparr>target = 2, idx = 0, delay = ParseInt10 (Some ''100'')\<rparr>],
                 commandParameters := Some [''wait'', ''100''],
                 commandCalls := Some [\<lparr>cmd = ''shake'', params = [''shake'', ''hard''],
                                        time = 3\<rparr>]\<rparr>) True"
proof -
  have "(scrollClippedText ^^ 2) shake_session = shake_session\<lparr>clipTextEnd := 2\<rparr>"
    using scroll_funpow_active[of shake_session 2] by (simp add: shake_session_fields)
  then show ?thesis
    by (simp add: isCommandCalled_def shake_session_fields Let_def element_def splice1_def)
qed

text \<open>
  Once a paused queue of one entry has a single pending timer that points at index 0 of
  this very queue, no call ever reports the entry: calls made during the pause return
  false, and the timer callback removes the entry.
\<close>

lemma doomed_play:
  assumes "commandCalls s = Some []
           \<or> (pauseScrolling s \<and> commandCalls s = Some [c] \<and> timers s = [t]
                \<and> target t = callsId s \<and> idx t = 0)"
  shows "map snd (play name evs s) = replicate (length (play name evs s)) (Some False)"
  using assms
proof (induction evs arbitrary: s)
  case Nil
  show ?case by simp
next
  case (Cons ev evs)
  show ?case
  proof (cases "commandCalls s = Some []")
    case True
    then show ?thesis by (rule drained_play)
  next
    case False
    then have d: "pauseScrolling s" "commandCalls s = Some [c]" "timers s = [t]"
      "target t = callsId s" "idx t = 0"
      using Cons.prems by auto
    show ?thesis
    proof (cases ev)
      case Tick
      have "scrollClippedText s = s" using d(1) by (simp add: scrollClippedText_def)
      then show ?thesis using Tick Cons.IH[OF Cons.prems] by simp
    next
      case Poll
      have "isCommandCalled s name = Return s False"
        using d(1,2) by (simp add: isCommandCalled_def)
      then show ?thesis using Poll Cons.IH[OF Cons.prems] by simp
    next
      case (Fire n)
      show ?thesis
      proof (cases n)
        case 0
        have "commandCalls (fire_timer 0 s) = Some []"
          using d by (simp add: fire_timer_def Let_def splice1_def)
        then show ?thesis using Fire 0 drained_play[of "fire_timer 0 s" name evs] by simp
      next
        case (Suc m)
        have "fire_timer n s = s" using d(3) Suc by (simp add: fire_timer_def)
        then show ?thesis using Fire Cons.IH[OF Cons.prems] by simp
      qed
    qed
  qed
qed

text \<open>
  C1 fails on the code. In the session started from \<open>shake_script\<close>, the line
  "Hi<<wait 100>><<shake hard>>!", two ticks and \<^verbatim>\<open>isCommandCalled("wait")\<close> return true
  and remove the wait entry in the same call that schedules its timer. What is left is a
  line "Hi!" of length 3 with exactly one command call, shake, queued at offset 3, with
  scrolling paused and the timer pending. The timer callback removes the entry at the
  index the wait entry had, and that entry is now shake: whatever the caller does from
  there on (ticks, calls and timer callbacks in any order \<open>evs\<close>),
  \<^verbatim>\<open>isCommandCalled("shake")\<close> never returns true.
\<close>

theorem command_lost_after_wait:
  "returned (isCommandCalled ((scrollClippedText ^^ 2) shake_session) ''wait'') = Some True
   \<and> dialogueText shake_paused = Some ''Hi!''
   \<and> commandCalls shake_paused
       = Some [\<lparr>cmd = ''shake'', params = [''shake'', ''hard''], time = 3\<rparr>]
   \<and> dialogueIsRunning shake_paused
   \<and> pauseScrolling shake_paused
   \<and> timers shake_paused = [\<lparr>target = 2, idx = 0, delay = ParseInt10 (Some ''100'')\<rparr>]
   \<and> commandCalls (fire_timer 0 shake_paused) = Some []
   \<and> play ''shake'' [Poll, Fire 0, Tick, Poll, Tick, Poll] shake_paused
       = [(2, Some False), (3, Some False), (4, Some False)]
   \<and> map snd (play ''shake'' evs shake_paused)
       = replicate (length (play ''shake'' evs shake_paused)) (Some False)"
proof -
  let ?c = "\<lparr>cmd = ''shake'', params = [''shake'', ''hard''], time = 3\<rparr>"
  let ?t = "\<lparr>target = 2, idx = 0, delay = ParseInt10 (Some ''100'')\<rparr>"
  have f: "dialogueText shake_paused = Some ''Hi!''" "commandCalls shake_paused = Some [?c]"
    "dialogueIsRunning shake_paused" "pauseScrolling shake_paused"
    "timers shake_paused = [?t]" "callsId shake_paused = 2" "clipTextEnd shake_paused = 2"
    by (simp_all add: shake_paused_def shake_paused_eq shake_session_fields)
  have gone: "commandCalls (fire_timer 0 shake_paused) = Some []"
    by (simp add: fire_timer_def f Let_def splice1_def)
  have trace: "play ''shake'' [Poll, Fire 0, Tick, Poll, Tick, Poll] shake_paused
       = [(2, Some False), (3, Some False), (4, Some False)]"
    by (simp add: isCommandCalled_def fire_timer_def scrollClippedText_def f Let_def splice1_def)
  have never: "map snd (play ''shake'' evs shake_paused)
       = replicate (length (play ''shake'' evs shake_paused)) (Some False)"
    by (rule doomed_play[of shake_paused ?c ?t]) (simp add: f)
  show ?thesis using f gone trace never by (simp add: shake_paused_eq)
qed

end
